theory Spec2Isabelle
  imports
    Complex_Main
    "HOL-Library.Multiset"
    "HOL-Library.Char_ord"
    "HOL-Library.List_Lexorder"
    "HOL-Library.Product_Lexorder"
begin

section \<open>JavaScript values used by the application\<close>

text \<open>
  Strings are byte lists (UTF-8); a field that may be absent from a document is an
  \<open>option\<close>. JavaScript's truthiness test (\<open>if (x)\<close>, \<open>!x\<close>, \<open>x || d\<close>) is written
  out: an absent value, the empty string and the number 0 are falsy. Numbers are
  reals; NaN is outside the model.
\<close>

definition truthy_str :: "string option \<Rightarrow> bool" where
  "truthy_str v = (case v of None \<Rightarrow> False | Some s \<Rightarrow> s \<noteq> [])"

definition truthy_num :: "real option \<Rightarrow> bool" where
  "truthy_num v = (case v of None \<Rightarrow> False | Some x \<Rightarrow> x \<noteq> 0)"

text \<open>\<open>x || d\<close> on an optional number and on an optional string.\<close>

definition num_or :: "real option \<Rightarrow> real \<Rightarrow> real" where
  "num_or v d = (case v of None \<Rightarrow> d | Some x \<Rightarrow> if x \<noteq> 0 then x else d)"

definition str_or :: "string option \<Rightarrow> string \<Rightarrow> string" where
  "str_or v d = (case v of None \<Rightarrow> d | Some s \<Rightarrow> if s \<noteq> [] then s else d)"

text \<open>\<open>String(n)\<close> for a natural number: its decimal digits.\<close>

definition digit_char :: "nat \<Rightarrow> char" where
  "digit_char d = char_of (48 + d)"

fun show_nat :: "nat \<Rightarrow> string" where
  "show_nat n = (if n < 10 then [digit_char n] else show_nat (n div 10) @ [digit_char (n mod 10)])"

declare show_nat.simps [simp del]

section \<open>Notification feed (components/NotificationButton)\<close>

datatype ntype = Message | Review | Service

datatype ndata = ChatId string | ReviewId string

record notification =
  n_id :: string
  n_type :: ntype
  n_title :: string
  n_message :: string
  n_timestamp :: int
  n_read :: bool
  n_data :: "ndata option"

text \<open>Documents of the \<open>chats\<close> and \<open>reviews\<close> collections, as the snapshot handlers read them.\<close>

record chat_doc =
  c_id :: string
  c_participants :: "string list"
  c_participantNames :: "string \<rightharpoonup> string"
  c_lastMessage :: "string option"
  c_lastMessageTime :: "int option"
  c_createdAt :: "int option"

record review_doc =
  r_id :: string
  r_providerId :: string
  r_clientName :: string
  r_rating :: nat
  r_comment :: string
  r_createdAt :: int

text \<open>
  \<open>[...].sort((a, b) => b.timestamp.getTime() - a.timestamp.getTime())\<close>: a stable sort,
  newest first.
\<close>

definition sort_newest_first :: "notification list \<Rightarrow> notification list" where
  "sort_newest_first ns = sort_key (\<lambda>n. - n_timestamp n) ns"

text \<open>
  \<open>data.participants.find(p => p !== user.uid)\<close> and
  \<open>data.participantNames[otherParticipant] || 'Usuario'\<close> (the source's default has an
  a-acute, here in UTF-8). A lookup with an undefined key reads the property
  \<open>"undefined"\<close>.
\<close>

definition senderName_of :: "string \<Rightarrow> chat_doc \<Rightarrow> string" where
  "senderName_of uid d =
     (let otherParticipant = find (\<lambda>p. p \<noteq> uid) (c_participants d);
          key = (case otherParticipant of None \<Rightarrow> ''undefined'' | Some p \<Rightarrow> p)
      in str_or (c_participantNames d key) (''Usu'' @ [CHR 0xC3, CHR 0xA1] @ ''rio''))"

definition message_notification :: "string \<Rightarrow> chat_doc \<Rightarrow> string \<Rightarrow> int \<Rightarrow> notification" where
  "message_notification uid d m t =
     \<lparr> n_id = ''message-'' @ c_id d,
       n_type = Message,
       n_title = ''Nova mensagem de '' @ senderName_of uid d,
       n_message = m,
       n_timestamp = t,
       n_read = False,
       n_data = Some (ChatId (c_id d)) \<rparr>"

text \<open>The body of \<open>snapshot.forEach\<close> in the chats listener: zero or one event per document.\<close>

definition chat_events :: "string \<Rightarrow> chat_doc \<Rightarrow> notification list" where
  "chat_events uid d =
     (case (c_lastMessage d, c_lastMessageTime d) of
        (Some m, Some t) \<Rightarrow> if m \<noteq> [] then [message_notification uid d m t] else []
      | _ \<Rightarrow> [])"

definition messageNotifications :: "string \<Rightarrow> chat_doc list \<Rightarrow> notification list" where
  "messageNotifications uid snapshot = concat (map (chat_events uid) snapshot)"

definition onChatsSnapshot :: "string \<Rightarrow> chat_doc list \<Rightarrow> notification list \<Rightarrow> notification list" where
  "onChatsSnapshot uid snapshot prev =
     (let filtered = filter (\<lambda>n. n_type n \<noteq> Message) prev
      in sort_newest_first (messageNotifications uid snapshot @ filtered))"

definition review_notification :: "review_doc \<Rightarrow> notification" where
  "review_notification d =
     \<lparr> n_id = ''review-'' @ r_id d,
       n_type = Review,
       n_title = ''Nova avalia'' @ [CHR 0xC3, CHR 0xA7, CHR 0xC3, CHR 0xA3] @ ''o de '' @ r_clientName d,
       n_message = show_nat (r_rating d) @ '' estrelas: '' @ r_comment d,
       n_timestamp = r_createdAt d,
       n_read = False,
       n_data = Some (ReviewId (r_id d)) \<rparr>"

definition reviewNotifications :: "review_doc list \<Rightarrow> notification list" where
  "reviewNotifications snapshot = map review_notification snapshot"

definition onReviewsSnapshot :: "review_doc list \<Rightarrow> notification list \<Rightarrow> notification list" where
  "onReviewsSnapshot snapshot prev =
     (let filtered = filter (\<lambda>n. n_type n \<noteq> Review) prev
      in sort_newest_first (reviewNotifications snapshot @ filtered))"

text \<open>The count the badge effect computes: \<open>notifications.filter(n => !n.read).length\<close>.\<close>

definition unreadCount :: "notification list \<Rightarrow> nat" where
  "unreadCount notifications = length (filter (\<lambda>n. \<not> n_read n) notifications)"

definition markAsRead :: "string \<Rightarrow> notification list \<Rightarrow> notification list" where
  "markAsRead notificationId prev =
     map (\<lambda>n. if n_id n = notificationId then n\<lparr>n_read := True\<rparr> else n) prev"

definition markAllAsRead :: "notification list \<Rightarrow> notification list" where
  "markAllAsRead prev = map (\<lambda>n. n\<lparr>n_read := True\<rparr>) prev"

text \<open>
  The feeds a session can hold: it starts empty and changes only through the two
  listeners and the two read operations. A query snapshot holds each document once.
\<close>

inductive feed_reachable :: "string \<Rightarrow> notification list \<Rightarrow> bool" for uid :: string where
  fr_init: "feed_reachable uid []"
| fr_chats: "feed_reachable uid prev \<Longrightarrow> distinct (map c_id snapshot) \<Longrightarrow>
     feed_reachable uid (onChatsSnapshot uid snapshot prev)"
| fr_reviews: "feed_reachable uid prev \<Longrightarrow> distinct (map r_id snapshot) \<Longrightarrow>
     feed_reachable uid (onReviewsSnapshot snapshot prev)"
| fr_markAsRead: "feed_reachable uid prev \<Longrightarrow> feed_reachable uid (markAsRead i prev)"
| fr_markAllAsRead: "feed_reachable uid prev \<Longrightarrow> feed_reachable uid (markAllAsRead prev)"

text \<open>The key of an event: its kind and the id of the document it was made from.\<close>

definition event_key :: "notification \<Rightarrow> ntype \<times> ndata option" where
  "event_key n = (n_type n, n_data n)"

definition one_event_per_source :: "notification list \<Rightarrow> bool" where
  "one_event_per_source feed = distinct (map event_key feed)"

definition events_of :: "ntype \<Rightarrow> ndata \<Rightarrow> notification list \<Rightarrow> notification list" where
  "events_of k src feed = filter (\<lambda>n. n_type n = k \<and> n_data n = Some src) feed"

text \<open>
  The component keeps two state cells, the feed and the badge count. The count is not
  derived on reading: the effect with the dependency \<open>[notifications]\<close> runs after every
  change of the feed and stores \<open>notifications.filter(n => !n.read).length\<close> with
  \<open>setUnreadCount\<close>. Every change of the feed is a \<open>setNotifications\<close> with an updater
  (the two listeners, \<open>markAsRead\<close>, \<open>markAllAsRead\<close>). A session starts with the
  empty feed and the count 0.
\<close>

record button_state =
  bs_notifications :: "notification list"
  bs_unreadCount :: nat

definition unread_effect :: "button_state \<Rightarrow> button_state" where
  "unread_effect st = st\<lparr>bs_unreadCount := unreadCount (bs_notifications st)\<rparr>"

definition setNotifications ::
  "(notification list \<Rightarrow> notification list) \<Rightarrow> button_state \<Rightarrow> button_state" where
  "setNotifications updater st =
     unread_effect (st\<lparr>bs_notifications := updater (bs_notifications st)\<rparr>)"

definition initial_button :: button_state where
  "initial_button = \<lparr> bs_notifications = [], bs_unreadCount = 0 \<rparr>"

inductive button_reachable :: "button_state \<Rightarrow> bool" where
  br_init: "button_reachable initial_button"
| br_set: "button_reachable st \<Longrightarrow> button_reachable (setNotifications updater st)"

section \<open>The document store, as services/chat uses it\<close>

text \<open>
  The store is the remote collaborator. Every call to it can fail, which the source
  logs and rethrows; the outcome of each call, the id that \<open>addDoc\<close> generates and
  the readings of \<open>Timestamp.now()\<close> are inputs of a call, collected in \<open>io\<close>.
  Timestamps are milliseconds.
\<close>

datatype error = StoreReadFailed | StoreWriteFailed | NotFound

record io =
  getOk :: bool
  addOk :: bool
  updOk :: bool
  newId :: string
  now1 :: int
  now2 :: int

record message_doc =
  m_id :: string
  m_senderId :: string
  m_senderName :: string
  m_text :: string
  m_timestamp :: int

text \<open>
  \<open>chats\<close> is the collection of that name; \<open>messages\<close> holds the documents of every
  \<open>chats/{chatId}/messages\<close> subcollection with the chat id they belong to, in the
  order they were added.
\<close>

record store =
  chats :: "chat_doc list"
  messages :: "(string \<times> message_doc) list"

text \<open>
  \<open>getDocs(query(chatsRef, where('participants', 'array-contains', uid)))\<close>: a query
  with no \<open>orderBy\<close> returns its documents ordered by document id.
\<close>

definition chats_containing :: "store \<Rightarrow> string \<Rightarrow> chat_doc list" where
  "chats_containing st uid =
     sort_key c_id (filter (\<lambda>d. uid \<in> set (c_participants d)) (chats st))"

text \<open>
  The \<open>forEach\<close> over the query result: \<open>existingChatId\<close> starts as null and is
  overwritten at every document whose participants include the other user.
\<close>

definition findExisting :: "string \<Rightarrow> chat_doc list \<Rightarrow> string option" where
  "findExisting otherUserId snapshot =
     foldl (\<lambda>existingChatId d.
              if otherUserId \<in> set (c_participants d) then Some (c_id d) else existingChatId)
       None snapshot"

definition chatData :: "io \<Rightarrow> string \<Rightarrow> string \<Rightarrow> string \<Rightarrow> string \<Rightarrow> chat_doc" where
  "chatData e currentUserId otherUserId currentUserName otherUserName =
     \<lparr> c_id = newId e,
       c_participants = [currentUserId, otherUserId],
       c_participantNames = [currentUserId \<mapsto> currentUserName, otherUserId \<mapsto> otherUserName],
       c_lastMessage = Some [],
       c_lastMessageTime = Some (now1 e),
       c_createdAt = Some (now2 e) \<rparr>"

definition createOrGetChat ::
  "io \<Rightarrow> store \<Rightarrow> string \<Rightarrow> string \<Rightarrow> string \<Rightarrow> string \<Rightarrow> (error + string) \<times> store" where
  "createOrGetChat e st currentUserId otherUserId currentUserName otherUserName =
     (if \<not> getOk e then (Inl StoreReadFailed, st)
      else
        let existingChatId = findExisting otherUserId (chats_containing st currentUserId)
        in if truthy_str existingChatId
           then (Inr (case existingChatId of Some i \<Rightarrow> i | None \<Rightarrow> []), st)
           else if \<not> addOk e then (Inl StoreWriteFailed, st)
           else (Inr (newId e),
                 st\<lparr>chats := chats st @
                    [chatData e currentUserId otherUserId currentUserName otherUserName]\<rparr>))"

text \<open>The document that \<open>sendMessage\<close> adds to the messages subcollection.\<close>

definition new_message :: "io \<Rightarrow> string \<Rightarrow> string \<Rightarrow> string \<Rightarrow> message_doc" where
  "new_message e senderId senderName text =
     \<lparr> m_id = newId e, m_senderId = senderId, m_senderName = senderName,
       m_text = text, m_timestamp = now1 e \<rparr>"

text \<open>
  \<open>sendMessage\<close>: \<open>addDoc\<close> on the messages subcollection, then \<open>updateDoc\<close> on the
  chat document, two separate awaited writes. \<open>updateDoc\<close> fails on a document that
  does not exist. The store is returned as the call leaves it, also when it throws.
\<close>

definition sendMessage ::
  "io \<Rightarrow> store \<Rightarrow> string \<Rightarrow> string \<Rightarrow> string \<Rightarrow> string \<Rightarrow> (error + unit) \<times> store" where
  "sendMessage e st chatId senderId senderName text =
     (if \<not> addOk e then (Inl StoreWriteFailed, st)
      else
        let st1 = st\<lparr>messages := messages st @
                     [(chatId, new_message e senderId senderName text)]\<rparr>
        in if \<not> updOk e then (Inl StoreWriteFailed, st1)
           else if chatId \<notin> c_id ` set (chats st1) then (Inl NotFound, st1)
           else (Inr (),
                 st1\<lparr>chats := map (\<lambda>d. if c_id d = chatId
                                         then d\<lparr>c_lastMessage := Some text,
                                                c_lastMessageTime := Some (now2 e)\<rparr>
                                         else d) (chats st1)\<rparr>))"

record chat_message =
  cm_id :: string
  cm_chatId :: string
  cm_senderId :: string
  cm_senderName :: string
  cm_text :: string
  cm_timestamp :: int

text \<open>
  The documents of one conversation in the order they were added, and the result of
  \<open>query(messagesRef, orderBy('timestamp', 'asc'))\<close>: ascending by timestamp, documents
  of equal timestamp by document id.
\<close>

definition history :: "store \<Rightarrow> string \<Rightarrow> message_doc list" where
  "history st chatId = map snd (filter (\<lambda>(c, m). c = chatId) (messages st))"

definition messages_by_timestamp :: "store \<Rightarrow> string \<Rightarrow> message_doc list" where
  "messages_by_timestamp st chatId =
     sort_key (\<lambda>m. (m_timestamp m, m_id m)) (history st chatId)"

definition to_chat_message :: "string \<Rightarrow> message_doc \<Rightarrow> chat_message" where
  "to_chat_message chatId m =
     \<lparr> cm_id = m_id m, cm_chatId = chatId, cm_senderId = m_senderId m,
       cm_senderName = m_senderName m, cm_text = m_text m, cm_timestamp = m_timestamp m \<rparr>"

text \<open>
  \<open>getChatMessages\<close>: the list the callback receives for the snapshot taken in store
  state \<open>st\<close>; the listener fires with the snapshot of every state the store goes
  through.
\<close>

definition getChatMessages :: "store \<Rightarrow> string \<Rightarrow> chat_message list" where
  "getChatMessages st chatId = map (to_chat_message chatId) (messages_by_timestamp st chatId)"

text \<open>
  The order the spec describes, ascending by timestamp with ties in insertion order: a
  stable sort of the history on the timestamp alone.
\<close>

definition spec_ordered_history :: "store \<Rightarrow> string \<Rightarrow> chat_message list" where
  "spec_ordered_history st chatId =
     map (to_chat_message chatId) (sort_key m_timestamp (history st chatId))"

section \<open>Provider discovery (app/(tabs)/index and app/(tabs)/map)\<close>

text \<open>
  \<open>String.prototype.toLowerCase\<close> is JavaScript's own function and follows the Unicode
  case mappings. The model does not define it: \<open>filterProviders\<close> takes it as the
  parameter \<open>toLowerCase\<close>, and what is proved holds for every function in its place.
  \<open>hay.includes(needle)\<close> is a search for the needle at every position of the hay;
  on well-formed text it finds the same matches in the UTF-8 bytes as in JavaScript's
  code units.
\<close>

fun startsWith :: "string \<Rightarrow> string \<Rightarrow> bool" where
  "startsWith hay [] = True"
| "startsWith [] (n # ns) = False"
| "startsWith (h # hs) (n # ns) = (h = n \<and> startsWith hs ns)"

fun includes_str :: "string \<Rightarrow> string \<Rightarrow> bool" where
  "includes_str [] needle = (needle = [])"
| "includes_str (h # hs) needle = (startsWith (h # hs) needle \<or> includes_str hs needle)"

record location =
  l_latitude :: real
  l_longitude :: real

text \<open>A document of the \<open>users\<close> collection; any field may be absent.\<close>

record user_doc =
  u_uid :: string
  u_displayName :: "string option"
  u_photoURL :: "string option"
  u_serviceType :: "string option"
  u_neighborhood :: "string option"
  u_rating :: "real option"
  u_reviewCount :: "real option"
  u_status :: "string option"
  u_latitude :: "real option"
  u_longitude :: "real option"

record provider =
  p_uid :: string
  p_displayName :: string
  p_photoURL :: "string option"
  p_serviceType :: string
  p_neighborhood :: string
  p_rating :: real
  p_reviewCount :: real
  p_status :: string
  p_latitude :: real
  p_longitude :: real
  p_distance :: "real option"

text \<open>
  Modelled from the spec: \<open>calculateDistance\<close> of services/location, which is not among
  the source files. The spec gives the haversine distance with Earth radius 6371 km,
  \<open>d = 2R asin(sqrt(sin\<^sup>2(dlat/2) + cos(lat_a) cos(lat_b) sin\<^sup>2(dlon/2)))\<close>, on
  coordinates in degrees. The screens below take the distance function as a parameter.
\<close>

definition calculateDistance :: "real \<Rightarrow> real \<Rightarrow> real \<Rightarrow> real \<Rightarrow> real" where
  "calculateDistance lat1 lon1 lat2 lon2 =
     (let dLat = (lat2 - lat1) * pi / 180;
          dLon = (lon2 - lon1) * pi / 180;
          a = (sin (dLat / 2))\<^sup>2
              + cos (lat1 * pi / 180) * cos (lat2 * pi / 180) * (sin (dLon / 2))\<^sup>2
      in 2 * 6371 * arcsin (sqrt a))"

text \<open>The fields both screens copy from a document once the required ones are present.\<close>

definition str_val :: "string option \<Rightarrow> string" where
  "str_val v = (case v of None \<Rightarrow> [] | Some s \<Rightarrow> s)"

definition with_distance ::
  "(real \<Rightarrow> real \<Rightarrow> real \<Rightarrow> real \<Rightarrow> real) \<Rightarrow> location option \<Rightarrow> provider \<Rightarrow> provider" where
  "with_distance distKm userLocation p =
     (case userLocation of
        None \<Rightarrow> p
      | Some l \<Rightarrow> p\<lparr>p_distance :=
          Some (distKm (l_latitude l) (l_longitude l) (p_latitude p) (p_longitude p))\<rparr>)"

definition make_provider :: "user_doc \<Rightarrow> real \<Rightarrow> real \<Rightarrow> provider" where
  "make_provider d la lo =
     \<lparr> p_uid = u_uid d,
       p_displayName = str_val (u_displayName d),
       p_photoURL = (if truthy_str (u_photoURL d) then u_photoURL d else None),
       p_serviceType = str_val (u_serviceType d),
       p_neighborhood = str_val (u_neighborhood d),
       p_rating = num_or (u_rating d) 0,
       p_reviewCount = num_or (u_reviewCount d) 0,
       p_status = str_or (u_status d) ''disponivel'',
       p_latitude = la,
       p_longitude = lo,
       p_distance = None \<rparr>"

text \<open>\<open>providersData.sort((a, b) => (a.distance || 0) - (b.distance || 0))\<close>.\<close>

definition sort_by_distance :: "provider list \<Rightarrow> provider list" where
  "sort_by_distance ps = sort_key (\<lambda>p. num_or (p_distance p) 0) ps"

subsection \<open>The home list\<close>

record home_state =
  hs_providers :: "provider list"
  hs_filteredProviders :: "provider list"
  hs_selectedService :: string
  hs_selectedNeighborhood :: string
  hs_searchText :: string
  hs_userLocation :: "location option"
  hs_searchRadius :: real

text \<open>
  The body of \<open>querySnapshot.forEach\<close> in \<open>loadProviders\<close> of the home list: a document
  with no coordinate is placed at the default one.
\<close>

definition home_provider ::
  "(real \<Rightarrow> real \<Rightarrow> real \<Rightarrow> real \<Rightarrow> real) \<Rightarrow> location option \<Rightarrow> user_doc \<Rightarrow> provider list" where
  "home_provider distKm userLocation d =
     (if \<not> truthy_str (u_displayName d) \<or> \<not> truthy_str (u_serviceType d)
         \<or> \<not> truthy_str (u_neighborhood d)
      then []
      else [with_distance distKm userLocation
              (make_provider d (num_or (u_latitude d) (- 22.9068))
                               (num_or (u_longitude d) (- 43.1729)))])"

text \<open>
  \<open>loadProviders\<close> is a closure of the render that created it. The \<open>userLocation\<close> it
  reads is the one of that render, its argument here, and not the field of the state
  it writes the list into. A failed query is caught and reported, and leaves the list
  as it was.
\<close>

definition loadProviders ::
  "(real \<Rightarrow> real \<Rightarrow> real \<Rightarrow> real \<Rightarrow> real) \<Rightarrow> location option \<Rightarrow> bool \<Rightarrow> user_doc list
     \<Rightarrow> home_state \<Rightarrow> home_state" where
  "loadProviders distKm userLocation ok querySnapshot st =
     (if \<not> ok then st
      else st\<lparr>hs_providers :=
             sort_by_distance (concat (map (home_provider distKm userLocation) querySnapshot))\<rparr>)"

definition setUserLocation :: "location option \<Rightarrow> home_state \<Rightarrow> home_state" where
  "setUserLocation l st = st\<lparr>hs_userLocation := l\<rparr>"

text \<open>
  The two callers. The mount effect starts \<open>getCurrentLocation().then(setUserLocation)\<close>
  and then calls the \<open>loadProviders\<close> of the first render, whose \<open>userLocation\<close> is the
  initial null; the location may be stored before or after the list.
  \<open>onRefresh\<close> awaits the location, stores it, and then calls the \<open>loadProviders\<close> of the
  render in which the refresh began, which still reads the location of that render.
  \<open>getCurrentLocation\<close> either rejects, which ends \<open>onRefresh\<close>, or resolves.
\<close>

definition mount_loadProviders ::
  "(real \<Rightarrow> real \<Rightarrow> real \<Rightarrow> real \<Rightarrow> real) \<Rightarrow> bool \<Rightarrow> user_doc list \<Rightarrow> home_state \<Rightarrow> home_state" where
  "mount_loadProviders distKm ok querySnapshot st = loadProviders distKm None ok querySnapshot st"

datatype located = LocationFailed | Located "location option"

definition onRefresh ::
  "(real \<Rightarrow> real \<Rightarrow> real \<Rightarrow> real \<Rightarrow> real) \<Rightarrow> located \<Rightarrow> bool \<Rightarrow> user_doc list
     \<Rightarrow> home_state \<Rightarrow> home_state" where
  "onRefresh distKm current ok querySnapshot st =
     (case current of
        LocationFailed \<Rightarrow> st
      | Located l \<Rightarrow>
          loadProviders distKm (hs_userLocation st) ok querySnapshot (setUserLocation l st))"

text \<open>
  \<open>filterProviders\<close>, run by the effect on the list, the three filters and the radius;
  it reads the state of the render it runs in.
\<close>

definition filterProviders :: "(string \<Rightarrow> string) \<Rightarrow> home_state \<Rightarrow> home_state" where
  "filterProviders toLowerCase st =
     (let filtered0 = hs_providers st;
          filtered1 = (if hs_selectedService st \<noteq> []
                       then filter (\<lambda>p. includes_str (toLowerCase (p_serviceType p))
                                                  (toLowerCase (hs_selectedService st))) filtered0
                       else filtered0);
          filtered2 = (if hs_selectedNeighborhood st \<noteq> []
                       then filter (\<lambda>p. p_neighborhood p = hs_selectedNeighborhood st) filtered1
                       else filtered1);
          filtered3 = (if hs_searchText st \<noteq> []
                       then filter (\<lambda>p. includes_str (toLowerCase (p_displayName p))
                                                  (toLowerCase (hs_searchText st))
                                       \<or> includes_str (toLowerCase (p_serviceType p))
                                                  (toLowerCase (hs_searchText st))) filtered2
                       else filtered2);
          filtered4 = (if hs_userLocation st \<noteq> None
                       then filter (\<lambda>p. num_or (p_distance p) 0 \<le> hs_searchRadius st) filtered3
                       else filtered3)
      in st\<lparr>hs_filteredProviders := filtered4\<rparr>)"

subsection \<open>The map screen\<close>

record map_state =
  ms_providers :: "provider list"
  ms_userLocation :: "location option"
  ms_searchRadius :: real

text \<open>
  The body of \<open>querySnapshot.forEach\<close> in \<open>loadProviders\<close> of the map screen: a document
  with no coordinate is skipped, and with a known location only providers within the
  radius are pushed.
\<close>

definition map_provider ::
  "(real \<Rightarrow> real \<Rightarrow> real \<Rightarrow> real \<Rightarrow> real) \<Rightarrow> location option \<Rightarrow> real \<Rightarrow> user_doc \<Rightarrow> provider list" where
  "map_provider distKm userLocation searchRadius d =
     (if \<not> truthy_str (u_displayName d) \<or> \<not> truthy_str (u_serviceType d)
         \<or> \<not> truthy_str (u_neighborhood d)
         \<or> \<not> truthy_num (u_latitude d) \<or> \<not> truthy_num (u_longitude d)
      then []
      else
        let p = with_distance distKm userLocation
                  (make_provider d (num_or (u_latitude d) 0) (num_or (u_longitude d) 0))
        in case userLocation of
             Some l \<Rightarrow> (case p_distance p of
                          Some x \<Rightarrow> if x \<le> searchRadius then [p] else []
                        | None \<Rightarrow> [])
           | None \<Rightarrow> [p])"

text \<open>
  The map screen's \<open>loadProviders\<close> is a closure too: \<open>userLocation\<close> and \<open>searchRadius\<close>
  are those of the render that created it, its arguments here. The effect on
  \<open>[userLocation, searchRadius]\<close> calls it with the values of the current state.
\<close>

definition loadProviders_map ::
  "(real \<Rightarrow> real \<Rightarrow> real \<Rightarrow> real \<Rightarrow> real) \<Rightarrow> location option \<Rightarrow> real \<Rightarrow> bool \<Rightarrow> user_doc list
     \<Rightarrow> map_state \<Rightarrow> map_state" where
  "loadProviders_map distKm userLocation searchRadius ok querySnapshot st =
     (if \<not> ok then st
      else st\<lparr>ms_providers :=
             sort_by_distance
               (concat (map (map_provider distKm userLocation searchRadius) querySnapshot))\<rparr>)"

text \<open>
  What the spec calls a case-insensitive substring match: the needle occurs in the hay
  once both are lower-cased.
\<close>

definition ci_substring :: "(string \<Rightarrow> string) \<Rightarrow> string \<Rightarrow> string \<Rightarrow> bool" where
  "ci_substring toLowerCase needle hay =
     (\<exists>pre post. toLowerCase hay = pre @ toLowerCase needle @ post)"

text \<open>The spec's three filters, each a no-op when unset, and the radius test of the code.\<close>

definition service_ok :: "(string \<Rightarrow> string) \<Rightarrow> home_state \<Rightarrow> provider \<Rightarrow> bool" where
  "service_ok toLowerCase st p =
     (hs_selectedService st = [] \<or> ci_substring toLowerCase (hs_selectedService st) (p_serviceType p))"

definition neighborhood_ok :: "home_state \<Rightarrow> provider \<Rightarrow> bool" where
  "neighborhood_ok st p = (hs_selectedNeighborhood st = [] \<or> p_neighborhood p = hs_selectedNeighborhood st)"

definition freeText_ok :: "(string \<Rightarrow> string) \<Rightarrow> home_state \<Rightarrow> provider \<Rightarrow> bool" where
  "freeText_ok toLowerCase st p =
     (hs_searchText st = [] \<or> ci_substring toLowerCase (hs_searchText st) (p_displayName p)
      \<or> ci_substring toLowerCase (hs_searchText st) (p_serviceType p))"

definition radius_ok :: "home_state \<Rightarrow> provider \<Rightarrow> bool" where
  "radius_ok st p = (hs_userLocation st = None \<or> num_or (p_distance p) 0 \<le> hs_searchRadius st)"

text \<open>
  The provider the home list makes of a document with no stored coordinate: placed at
  the default coordinate, with the distance from the location \<open>loadProviders\<close> read.
\<close>

definition default_placed ::
  "(real \<Rightarrow> real \<Rightarrow> real \<Rightarrow> real \<Rightarrow> real) \<Rightarrow> location option \<Rightarrow> user_doc \<Rightarrow> provider" where
  "default_placed distKm userLocation d =
     with_distance distKm userLocation (make_provider d (- 22.9068) (- 43.1729))"

text \<open>The conversations that hold both users, in the order of the query result.\<close>

definition chats_of_pair :: "store \<Rightarrow> string \<Rightarrow> string \<Rightarrow> chat_doc list" where
  "chats_of_pair st a b =
     sort_key c_id (filter (\<lambda>d. a \<in> set (c_participants d) \<and> b \<in> set (c_participants d)) (chats st))"

section \<open>Example data\<close>

definition ex_review :: review_doc where
  "ex_review = \<lparr> r_id = ''r1'', r_providerId = ''u1'', r_clientName = ''Ana'',
                  r_rating = 4, r_comment = ''bom'', r_createdAt = 100 \<rparr>"

definition ex_review_newer :: review_doc where
  "ex_review_newer = \<lparr> r_id = ''r1'', r_providerId = ''u1'', r_clientName = ''Ana'',
                        r_rating = 5, r_comment = ''otimo'', r_createdAt = 200 \<rparr>"

definition ex_event :: "string \<Rightarrow> bool \<Rightarrow> notification" where
  "ex_event i r = \<lparr> n_id = i, n_type = Message, n_title = ''Nova mensagem de Ana'',
                    n_message = ''oi'', n_timestamp = 100, n_read = r,
                    n_data = Some (ChatId ''c1'') \<rparr>"

definition ex_io :: "string \<Rightarrow> int \<Rightarrow> io" where
  "ex_io i t = \<lparr> getOk = True, addOk = True, updOk = True, newId = i, now1 = t, now2 = t + 1 \<rparr>"

definition ex_store0 :: store where
  "ex_store0 = \<lparr> chats = [], messages = [] \<rparr>"

definition ex_store1 :: store where
  "ex_store1 = snd (createOrGetChat (ex_io ''c1'' 10) ex_store0 ''u1'' ''u2'' ''Ana'' ''Bia'')"

definition ex_store_ab :: store where
  "ex_store_ab =
     snd (sendMessage (ex_io ''m1'' 1000)
            (snd (sendMessage (ex_io ''m2'' 1000) ex_store1 ''c1'' ''u1'' ''Ana'' ''a''))
            ''c1'' ''u2'' ''Bia'' ''b'')"


definition ex_store_ab_later :: store where
  "ex_store_ab_later =
     snd (sendMessage (ex_io ''m1'' 2000)
            (snd (sendMessage (ex_io ''m2'' 1000) ex_store1 ''c1'' ''u1'' ''Ana'' ''a''))
            ''c1'' ''u2'' ''Bia'' ''b'')"

text \<open>
  On text of ASCII characters \<open>toLowerCase\<close> changes the letters A to Z and nothing
  else; the examples, whose strings are ASCII, use this function in its place.
\<close>

definition ascii_lower_char :: "char \<Rightarrow> char" where
  "ascii_lower_char c =
     (if CHR ''A'' \<le> c \<and> c \<le> CHR ''Z'' then char_of (of_char c + (32::nat)) else c)"

definition ascii_toLowerCase :: "string \<Rightarrow> string" where
  "ascii_toLowerCase s = map ascii_lower_char s"


definition ex_home :: home_state where
  "ex_home = \<lparr> hs_providers = [], hs_filteredProviders = [], hs_selectedService = [],
               hs_selectedNeighborhood = [], hs_searchText = [], hs_userLocation = None,
               hs_searchRadius = 5 \<rparr>"

definition ex_origin :: location where
  "ex_origin = \<lparr> l_latitude = - 22.9068, l_longitude = - 43.1729 \<rparr>"

definition ex_doc :: "string \<Rightarrow> real option \<Rightarrow> real option \<Rightarrow> user_doc" where
  "ex_doc i la lo =
     \<lparr> u_uid = i, u_displayName = Some ''Joao'', u_photoURL = None,
       u_serviceType = Some ''Encanador'', u_neighborhood = Some ''Centro'',
       u_rating = None, u_reviewCount = None, u_status = None,
       u_latitude = la, u_longitude = lo \<rparr>"

text \<open>
  The home list on mount: the location resolves to \<open>ex_origin\<close> and is stored, then the
  query of the mount's \<open>loadProviders\<close> returns one provider stored at
  (-23.5505, -46.6333).
\<close>

definition ex_home_mounted :: home_state where
  "ex_home_mounted =
     mount_loadProviders calculateDistance True
       [ex_doc ''p2'' (Some (- 23.5505)) (Some (- 46.6333))]
       (setUserLocation (Some ex_origin) ex_home)"

text \<open>
  The home list after a refresh with the location known before and after: the query
  returns one provider with no stored coordinate.
\<close>

definition ex_home_refreshed :: home_state where
  "ex_home_refreshed =
     onRefresh calculateDistance (Located (Some ex_origin)) True [ex_doc ''p1'' None None]
       (setUserLocation (Some ex_origin) ex_home)"

definition ex_home_service :: home_state where
  "ex_home_service = (setUserLocation (Some ex_origin) ex_home)\<lparr>hs_selectedService := ''enc''\<rparr>"

definition ex_map :: map_state where
  "ex_map = \<lparr> ms_providers = [], ms_userLocation = Some ex_origin, ms_searchRadius = 5 \<rparr>"

definition ex_button :: button_state where
  "ex_button =
     setNotifications (\<lambda>prev. [ex_event ''a'' False, ex_event ''b'' True, ex_event ''c'' False])
       initial_button"

section \<open>Read tracking\<close>

lemma unreadCount_card:
  "unreadCount feed = card {k. k < length feed \<and> \<not> n_read (feed ! k)}"
  by (simp add: unreadCount_def length_filter_conv_card)

lemma setNotifications_fields:
  "bs_notifications (setNotifications updater st) = updater (bs_notifications st)"
  "bs_unreadCount (setNotifications updater st) = unreadCount (updater (bs_notifications st))"
  by (simp_all add: setNotifications_def unread_effect_def)

lemma button_reachable_count:
  "button_reachable st \<Longrightarrow> bs_unreadCount st = unreadCount (bs_notifications st)"
proof (induction rule: button_reachable.induct)
  case br_init
  show ?case by (simp add: initial_button_def unreadCount_def)
next
  case (br_set st updater)
  show ?case by (simp add: setNotifications_fields)
qed

lemma unreadCount_markAllAsRead: "unreadCount (markAllAsRead feed) = 0"
  by (simp add: unreadCount_def markAllAsRead_def filter_empty_conv)

text \<open>
  C8: \<open>markAllAsRead\<close> leaves a state whose unread count is 0, from every state: it keeps
  the feed's length and marks every event read, and the effect that follows stores the
  count of the new feed. The count is the number of events with \<open>read = false\<close>: that is
  what the effect stores after every change of the feed, whatever the updater, so in
  every state a session reaches the stored count is the number of unread events of the
  feed it holds.
\<close>

theorem markAllAsRead_unreadCount_zero:
  "bs_unreadCount (setNotifications markAllAsRead st) = 0
   \<and> length (bs_notifications (setNotifications markAllAsRead st)) = length (bs_notifications st)
   \<and> (\<forall>n\<in>set (bs_notifications (setNotifications markAllAsRead st)). n_read n)
   \<and> unreadCount (markAllAsRead feed) = 0
   \<and> unreadCount feed = card {k. k < length feed \<and> \<not> n_read (feed ! k)}
   \<and> bs_unreadCount (setNotifications updater st)
       = card {k. k < length (updater (bs_notifications st))
                  \<and> \<not> n_read (updater (bs_notifications st) ! k)}
   \<and> (button_reachable st \<longrightarrow>
        bs_unreadCount st
          = card {k. k < length (bs_notifications st) \<and> \<not> n_read (bs_notifications st ! k)})"
proof -
  have zero: "bs_unreadCount (setNotifications markAllAsRead st) = 0"
    by (simp add: setNotifications_fields unreadCount_markAllAsRead)
  have len: "length (bs_notifications (setNotifications markAllAsRead st)) = length (bs_notifications st)"
    by (simp add: setNotifications_fields markAllAsRead_def)
  have all_read: "\<forall>n\<in>set (bs_notifications (setNotifications markAllAsRead st)). n_read n"
    by (simp add: setNotifications_fields markAllAsRead_def)
  have count: "bs_unreadCount (setNotifications updater st)
       = card {k. k < length (updater (bs_notifications st))
                  \<and> \<not> n_read (updater (bs_notifications st) ! k)}"
    by (simp only: setNotifications_fields unreadCount_card)
  have inv: "button_reachable st \<longrightarrow>
        bs_unreadCount st
          = card {k. k < length (bs_notifications st) \<and> \<not> n_read (bs_notifications st ! k)}"
    by (simp add: button_reachable_count unreadCount_card)
  from zero len all_read unreadCount_markAllAsRead [of feed] unreadCount_card [of feed] count inv
  show ?thesis by blast
qed

theorem markAllAsRead_unreadCount_zero_witness:
  "bs_unreadCount ex_button = 2
   \<and> bs_unreadCount (setNotifications markAllAsRead ex_button) = 0
   \<and> map n_read (bs_notifications (setNotifications markAllAsRead ex_button)) = [True, True, True]
   \<and> card {k. k < length (bs_notifications ex_button) \<and> \<not> n_read (bs_notifications ex_button ! k)} = 2"
proof -
  have reach: "button_reachable ex_button"
    unfolding ex_button_def by (rule br_set [OF br_init])
  have two: "bs_unreadCount ex_button = 2"
    by (simp add: ex_button_def setNotifications_fields unreadCount_def ex_event_def)
  have reads: "map n_read (bs_notifications (setNotifications markAllAsRead ex_button)) = [True, True, True]"
    by (simp add: ex_button_def setNotifications_fields markAllAsRead_def ex_event_def)
  from markAllAsRead_unreadCount_zero [of ex_button "[]" id] reach two reads
  show ?thesis by simp
qed

text \<open>
  C10: \<open>markAsRead i\<close> keeps the feed's length and order, changes no field but
  \<open>read\<close>, sets \<open>read\<close> exactly on the events whose id is \<open>i\<close> and leaves it as it
  was on all others; a feed with no event of that id is unchanged.
\<close>

theorem markAsRead_frame:
  "length (markAsRead i feed) = length feed
   \<and> (\<forall>k < length feed.
        (markAsRead i feed ! k)\<lparr>n_read := n_read (feed ! k)\<rparr> = feed ! k
        \<and> n_read (markAsRead i feed ! k) = (n_id (feed ! k) = i \<or> n_read (feed ! k))
        \<and> (n_id (feed ! k) \<noteq> i \<longrightarrow> markAsRead i feed ! k = feed ! k))
   \<and> (i \<notin> n_id ` set feed \<longrightarrow> markAsRead i feed = feed)"
proof -
  have unchanged: "markAsRead i feed = feed" if "i \<notin> n_id ` set feed"
  proof -
    have "map (\<lambda>n. if n_id n = i then n\<lparr>n_read := True\<rparr> else n) feed = map (\<lambda>n. n) feed"
      using that by (intro map_cong) auto
    then show ?thesis by (simp add: markAsRead_def)
  qed
  then show ?thesis by (simp add: markAsRead_def)
qed

theorem markAsRead_frame_witness:
  "length (markAsRead ''a'' [ex_event ''a'' False, ex_event ''b'' False]) = 2
   \<and> markAsRead ''a'' [ex_event ''a'' False, ex_event ''b'' False]
       = [ex_event ''a'' True, ex_event ''b'' False]
   \<and> markAsRead ''z'' [ex_event ''a'' False, ex_event ''b'' False]
       = [ex_event ''a'' False, ex_event ''b'' False]"
  using markAsRead_frame [of "''a''" "[ex_event ''a'' False, ex_event ''b'' False]"]
    markAsRead_frame [of "''z''" "[ex_event ''a'' False, ex_event ''b'' False]"]
  by (simp add: markAsRead_def ex_event_def)

section \<open>One event per source\<close>

lemma filter_sort_newest_first:
  "filter P (sort_newest_first ns) = sort_newest_first (filter P ns)"
  by (simp add: sort_newest_first_def filter_sort)

lemma distinct_keys_sort_newest_first:
  "distinct (map event_key (sort_newest_first ns)) = distinct (map event_key ns)"
proof -
  have "mset (map event_key (sort_newest_first ns)) = mset (map event_key ns)"
    by (simp add: sort_newest_first_def)
  then show ?thesis by (rule mset_eq_imp_distinct_iff)
qed

lemma chat_events_type: "n \<in> set (chat_events uid d) \<Longrightarrow> n_type n = Message"
  by (auto simp: chat_events_def message_notification_def split: option.splits if_splits)

lemma chat_events_key:
  "map event_key (chat_events uid d) =
     (if chat_events uid d = [] then [] else [(Message, Some (ChatId (c_id d)))])"
  by (auto simp: chat_events_def message_notification_def event_key_def split: option.splits)

lemma messageNotifications_type:
  "n \<in> set (messageNotifications uid snapshot) \<Longrightarrow> n_type n = Message"
  by (auto simp: messageNotifications_def dest: chat_events_type)

lemma messageNotifications_keys:
  "map event_key (messageNotifications uid snapshot) =
     map (\<lambda>i. (Message, Some (ChatId i)))
       (map c_id (filter (\<lambda>d. chat_events uid d \<noteq> []) snapshot))"
  by (induction snapshot) (simp_all add: messageNotifications_def chat_events_key)

lemma distinct_messageNotifications:
  assumes "distinct (map c_id snapshot)"
  shows "distinct (map event_key (messageNotifications uid snapshot))"
proof -
  have "distinct (map c_id (filter (\<lambda>d. chat_events uid d \<noteq> []) snapshot))"
    using assms by (rule distinct_map_filter)
  moreover have "inj (\<lambda>i. (Message, Some (ChatId i)))"
    by (rule injI) simp
  ultimately show ?thesis
    unfolding messageNotifications_keys
    by (simp add: distinct_map inj_on_def)
qed

lemma reviewNotifications_type:
  "n \<in> set (reviewNotifications snapshot) \<Longrightarrow> n_type n = Review"
  by (auto simp: reviewNotifications_def review_notification_def)

lemma reviewNotifications_keys:
  "map event_key (reviewNotifications snapshot) =
     map (\<lambda>i. (Review, Some (ReviewId i))) (map r_id snapshot)"
  by (simp add: reviewNotifications_def review_notification_def event_key_def)

lemma distinct_reviewNotifications:
  assumes "distinct (map r_id snapshot)"
  shows "distinct (map event_key (reviewNotifications snapshot))"
  unfolding reviewNotifications_keys using assms
  by (simp add: distinct_map inj_on_def)

lemma one_event_onChatsSnapshot:
  assumes "one_event_per_source prev" and "distinct (map c_id snapshot)"
  shows "one_event_per_source (onChatsSnapshot uid snapshot prev)"
proof -
  let ?new = "messageNotifications uid snapshot"
  let ?old = "filter (\<lambda>n. n_type n \<noteq> Message) prev"
  have new: "distinct (map event_key ?new)"
    using assms(2) by (rule distinct_messageNotifications)
  have old: "distinct (map event_key ?old)"
    using assms(1) unfolding one_event_per_source_def by (rule distinct_map_filter)
  have apart: "event_key ` set ?new \<inter> event_key ` set ?old = {}"
    by (auto simp: event_key_def dest: messageNotifications_type)
  from new old apart have "distinct (map event_key (?new @ ?old))"
    by simp
  then show ?thesis
    by (simp add: one_event_per_source_def onChatsSnapshot_def distinct_keys_sort_newest_first)
qed

lemma one_event_onReviewsSnapshot:
  assumes "one_event_per_source prev" and "distinct (map r_id snapshot)"
  shows "one_event_per_source (onReviewsSnapshot snapshot prev)"
proof -
  let ?new = "reviewNotifications snapshot"
  let ?old = "filter (\<lambda>n. n_type n \<noteq> Review) prev"
  have new: "distinct (map event_key ?new)"
    using assms(2) by (rule distinct_reviewNotifications)
  have old: "distinct (map event_key ?old)"
    using assms(1) unfolding one_event_per_source_def by (rule distinct_map_filter)
  have apart: "event_key ` set ?new \<inter> event_key ` set ?old = {}"
    by (auto simp: event_key_def dest: reviewNotifications_type)
  from new old apart have "distinct (map event_key (?new @ ?old))"
    by simp
  then show ?thesis
    by (simp add: one_event_per_source_def onReviewsSnapshot_def distinct_keys_sort_newest_first)
qed

lemma event_key_markAsRead: "map event_key (markAsRead i feed) = map event_key feed"
  by (induction feed) (simp_all add: markAsRead_def event_key_def)

lemma event_key_markAllAsRead: "map event_key (markAllAsRead feed) = map event_key feed"
  by (induction feed) (simp_all add: markAllAsRead_def event_key_def)

lemma reachable_one_event_per_source:
  "feed_reachable uid feed \<Longrightarrow> one_event_per_source feed"
proof (induction rule: feed_reachable.induct)
  case fr_init
  show ?case by (simp add: one_event_per_source_def)
next
  case (fr_chats prev snapshot)
  then show ?case by (simp add: one_event_onChatsSnapshot)
next
  case (fr_reviews prev snapshot)
  then show ?case by (simp add: one_event_onReviewsSnapshot)
next
  case (fr_markAsRead prev i)
  then show ?case by (simp add: one_event_per_source_def event_key_markAsRead)
next
  case (fr_markAllAsRead prev)
  then show ?case by (simp add: one_event_per_source_def event_key_markAllAsRead)
qed

lemma filter_same_kind:
  assumes "\<And>n. n \<in> set new \<Longrightarrow> n_type n = k"
  shows "filter (\<lambda>n. n_type n = k) (new @ filter (\<lambda>n. n_type n \<noteq> k) prev) = new"
proof -
  have "filter (\<lambda>n. n_type n = k) new = new"
    using assms by (simp add: filter_id_conv)
  moreover have "filter (\<lambda>n. n_type n = k) (filter (\<lambda>n. n_type n \<noteq> k) prev) = []"
    by (simp add: filter_empty_conv)
  ultimately show ?thesis by simp
qed

lemma reviews_replaced:
  "filter (\<lambda>n. n_type n = Review) (onReviewsSnapshot snapshot prev)
     = sort_newest_first (reviewNotifications snapshot)"
  by (simp add: onReviewsSnapshot_def filter_sort_newest_first
      filter_same_kind reviewNotifications_type)

lemma messages_replaced:
  "filter (\<lambda>n. n_type n = Message) (onChatsSnapshot uid snapshot prev)
     = sort_newest_first (messageNotifications uid snapshot)"
  by (simp add: onChatsSnapshot_def filter_sort_newest_first
      filter_same_kind messageNotifications_type)

lemma events_of_kind:
  "events_of k src feed = filter (\<lambda>n. n_data n = Some src) (filter (\<lambda>n. n_type n = k) feed)"
  by (simp add: events_of_def conj_commute)

lemma review_events_by_id:
  "filter (\<lambda>n. n_data n = Some (ReviewId i)) (reviewNotifications snapshot)
     = map review_notification (filter (\<lambda>d. r_id d = i) snapshot)"
  by (induction snapshot) (simp_all add: reviewNotifications_def review_notification_def)

lemma distinct_filter_one:
  assumes "distinct (map f xs)" and "x \<in> set xs"
  shows "filter (\<lambda>y. f y = f x) xs = [x]"
  using assms
proof (induction xs)
  case Nil
  then show ?case by simp
next
  case (Cons a xs)
  show ?case
  proof (cases "a = x")
    case True
    with Cons.prems(1) have "\<forall>y\<in>set xs. f y \<noteq> f x" by (auto simp: image_iff)
    then have "filter (\<lambda>y. f y = f x) xs = []" by (simp add: filter_empty_conv)
    with True show ?thesis by simp
  next
    case False
    with Cons.prems have "x \<in> set xs" "f a \<noteq> f x" "distinct (map f xs)" by force+
    with Cons.IH show ?thesis by simp
  qed
qed

lemma events_of_onReviewsSnapshot:
  "events_of Review (ReviewId i) (onReviewsSnapshot snapshot prev)
     = sort_newest_first (map review_notification (filter (\<lambda>d. r_id d = i) snapshot))"
  by (simp add: events_of_kind reviews_replaced filter_sort_newest_first review_events_by_id)

text \<open>
  C2: every feed a session can reach holds at most one event per kind and source
  document. A source update replaces all events of its kind by those of the snapshot:
  after the update, the events of that kind are exactly the snapshot's, newest first.
  After two review updates in a row, a review of the second snapshot has exactly one
  event, made from the second snapshot's data, and a review absent from the second
  snapshot has none.
\<close>

theorem feed_one_event_per_source:
  assumes "feed_reachable uid feed"
    and "distinct (map r_id snap1)" and "distinct (map r_id snap2)"
  shows "one_event_per_source feed
    \<and> filter (\<lambda>n. n_type n = Review) (onReviewsSnapshot snap1 feed)
         = sort_newest_first (reviewNotifications snap1)
    \<and> filter (\<lambda>n. n_type n = Message) (onChatsSnapshot uid csnap feed)
         = sort_newest_first (messageNotifications uid csnap)
    \<and> (\<forall>d\<in>set snap2.
          events_of Review (ReviewId (r_id d)) (onReviewsSnapshot snap2 (onReviewsSnapshot snap1 feed))
            = [review_notification d])
    \<and> (\<forall>i. i \<notin> r_id ` set snap2 \<longrightarrow>
          events_of Review (ReviewId i) (onReviewsSnapshot snap2 (onReviewsSnapshot snap1 feed)) = [])"
proof (intro conjI ballI allI impI)
  show "one_event_per_source feed"
    using assms(1) by (rule reachable_one_event_per_source)
next
  show "filter (\<lambda>n. n_type n = Review) (onReviewsSnapshot snap1 feed)
         = sort_newest_first (reviewNotifications snap1)"
    by (rule reviews_replaced)
next
  show "filter (\<lambda>n. n_type n = Message) (onChatsSnapshot uid csnap feed)
         = sort_newest_first (messageNotifications uid csnap)"
    by (rule messages_replaced)
next
  fix d assume "d \<in> set snap2"
  with assms(3) have "filter (\<lambda>y. r_id y = r_id d) snap2 = [d]"
    by (rule distinct_filter_one)
  then show "events_of Review (ReviewId (r_id d)) (onReviewsSnapshot snap2 (onReviewsSnapshot snap1 feed))
            = [review_notification d]"
    by (simp add: events_of_onReviewsSnapshot sort_newest_first_def)
next
  fix i assume "i \<notin> r_id ` set snap2"
  then have "filter (\<lambda>d. r_id d = i) snap2 = []"
    by (auto simp: filter_empty_conv)
  then show "events_of Review (ReviewId i) (onReviewsSnapshot snap2 (onReviewsSnapshot snap1 feed)) = []"
    by (simp add: events_of_onReviewsSnapshot sort_newest_first_def)
qed

theorem feed_one_event_per_source_witness:
  "one_event_per_source []
   \<and> events_of Review (ReviewId ''r1'')
        (onReviewsSnapshot [ex_review_newer] (onReviewsSnapshot [ex_review] []))
       = [review_notification ex_review_newer]
   \<and> events_of Review (ReviewId ''r2'')
        (onReviewsSnapshot [ex_review_newer] (onReviewsSnapshot [ex_review] [])) = []"
  using feed_one_event_per_source [OF fr_init, of "[ex_review]" "[ex_review_newer]" "''u1''" "[]"]
  by (simp add: ex_review_def ex_review_newer_def)

section \<open>Conversation creation\<close>

lemma foldl_existing:
  "foldl (\<lambda>acc d. if P d then Some (c_id d) else acc) acc0 snapshot =
     (if filter P snapshot = [] then acc0 else Some (c_id (last (filter P snapshot))))"
  by (induction snapshot arbitrary: acc0) simp_all

lemma findExisting_last:
  "findExisting other snapshot =
     (let ms = filter (\<lambda>d. other \<in> set (c_participants d)) snapshot
      in if ms = [] then None else Some (c_id (last ms)))"
  by (simp add: findExisting_def foldl_existing)

lemma chats_of_pair_commute: "chats_of_pair st a b = chats_of_pair st b a"
  by (simp add: chats_of_pair_def conj_commute)

lemma filter_chats_containing:
  "filter (\<lambda>d. b \<in> set (c_participants d)) (chats_containing st a) = chats_of_pair st a b"
  by (simp add: chats_containing_def chats_of_pair_def filter_sort conj_commute)

lemma findExisting_pair:
  "findExisting b (chats_containing st a) =
     (if chats_of_pair st a b = [] then None else Some (c_id (last (chats_of_pair st a b))))"
  by (simp add: findExisting_last filter_chats_containing Let_def)

lemma findExisting_commute:
  "findExisting b (chats_containing st a) = findExisting a (chats_containing st b)"
  by (simp add: findExisting_pair chats_of_pair_commute)

lemma findExisting_in_store:
  assumes "findExisting b (chats_containing st a) = Some i"
  shows "i \<in> c_id ` set (chats st)"
proof -
  from assms have ne: "chats_of_pair st a b \<noteq> []" and i: "i = c_id (last (chats_of_pair st a b))"
    by (auto simp: findExisting_pair split: if_splits)
  from ne have "last (chats_of_pair st a b) \<in> set (chats_of_pair st a b)" by simp
  then have "last (chats_of_pair st a b) \<in> set (chats st)" by (simp add: chats_of_pair_def)
  with i show ?thesis by simp
qed

lemma sort_key_Nil_iff: "sort_key f xs = [] \<longleftrightarrow> xs = []"
  by (metis length_0_conv length_sort)

lemma chats_of_pair_created:
  assumes "chats_of_pair st a b = []"
  shows "chats_of_pair (st\<lparr>chats := chats st @ [chatData e a b na nb]\<rparr>) a b = [chatData e a b na nb]"
proof -
  from assms have "filter (\<lambda>d. a \<in> set (c_participants d) \<and> b \<in> set (c_participants d)) (chats st) = []"
    unfolding chats_of_pair_def by (simp only: sort_key_Nil_iff)
  then show ?thesis by (simp add: chats_of_pair_def chatData_def)
qed

text \<open>
  C1: conversation creation is idempotent over the unordered pair. When a call for the
  users \<open>a\<close> and \<open>b\<close> has returned the id \<open>cid\<close> and left the store \<open>st1\<close>, a
  following call for the same two users, in either argument order and with any names,
  whose read succeeds returns \<open>cid\<close> again and leaves the store as it is: it finds
  the conversation and creates none. Document ids are never empty.
\<close>

theorem createOrGetChat_idempotent:
  assumes ids: "\<forall>d\<in>set (chats st). c_id d \<noteq> []" and fresh: "newId e1 \<noteq> []"
    and first: "createOrGetChat e1 st a b na nb = (Inr cid, st1)"
    and ok2: "getOk e2"
    and pair: "(x, y) = (a, b) \<or> (x, y) = (b, a)"
  shows "createOrGetChat e2 st1 x y nx ny = (Inr cid, st1)"
proof -
  have sym: "findExisting y (chats_containing st1 x) = findExisting b (chats_containing st1 a)"
    using pair by (auto simp: findExisting_commute)
  from first have ok1: "getOk e1"
    by (auto simp: createOrGetChat_def split: if_splits)
  show ?thesis
  proof (cases "findExisting b (chats_containing st a)")
    case (Some i)
    from findExisting_in_store [OF Some] ids have "i \<noteq> []" by auto
    with Some first ok1 have "cid = i" "st1 = st"
      by (auto simp: createOrGetChat_def truthy_str_def)
    with Some \<open>i \<noteq> []\<close> sym ok2 show ?thesis
      by (simp add: createOrGetChat_def truthy_str_def)
  next
    case None
    with first ok1 have created: "cid = newId e1" "st1 = st\<lparr>chats := chats st @ [chatData e1 a b na nb]\<rparr>"
      by (auto simp: createOrGetChat_def truthy_str_def split: if_splits)
    from None have "chats_of_pair st a b = []"
      by (simp add: findExisting_pair split: if_splits)
    then have "chats_of_pair st1 a b = [chatData e1 a b na nb]"
      unfolding created by (rule chats_of_pair_created)
    then have "findExisting b (chats_containing st1 a) = Some (newId e1)"
      by (simp add: findExisting_pair chatData_def)
    with sym fresh ok2 created show ?thesis
      by (simp add: createOrGetChat_def truthy_str_def)
  qed
qed

theorem createOrGetChat_idempotent_witness:
  "fst (createOrGetChat (ex_io ''c1'' 10) ex_store0 ''u1'' ''u2'' ''Ana'' ''Bia'') = Inr ''c1''
   \<and> fst (createOrGetChat (ex_io ''c2'' 20)
            (snd (createOrGetChat (ex_io ''c1'' 10) ex_store0 ''u1'' ''u2'' ''Ana'' ''Bia''))
            ''u2'' ''u1'' ''Bia'' ''Ana'') = Inr ''c1''
   \<and> map c_id (chats (snd (createOrGetChat (ex_io ''c2'' 20)
            (snd (createOrGetChat (ex_io ''c1'' 10) ex_store0 ''u1'' ''u2'' ''Ana'' ''Bia''))
            ''u2'' ''u1'' ''Bia'' ''Ana''))) = [''c1'']"
proof -
  have first: "createOrGetChat (ex_io ''c1'' 10) ex_store0 ''u1'' ''u2'' ''Ana'' ''Bia''
     = (Inr ''c1'', ex_store0\<lparr>chats := chats ex_store0 @ [chatData (ex_io ''c1'' 10) ''u1'' ''u2'' ''Ana'' ''Bia'']\<rparr>)"
    by (simp add: createOrGetChat_def ex_io_def ex_store0_def findExisting_def chats_containing_def truthy_str_def)
  have ids: "\<forall>d\<in>set (chats ex_store0). c_id d \<noteq> []" by (simp add: ex_store0_def)
  have fresh: "newId (ex_io ''c1'' 10) \<noteq> []" by (simp add: ex_io_def)
  have ok2: "getOk (ex_io ''c2'' 20)" by (simp add: ex_io_def)
  have pair: "(''u2'', ''u1'') = (''u1'', ''u2'') \<or> (''u2'', ''u1'') = (''u2'', ''u1'')" by simp
  from createOrGetChat_idempotent [OF ids fresh first ok2 pair, of "''Bia''" "''Ana''"] first
  show ?thesis by (simp add: ex_store0_def chatData_def ex_io_def)
qed

section \<open>Conversations without a last message\<close>

lemma chat_events_data:
  "n \<in> set (chat_events uid d) \<Longrightarrow> n_data n = Some (ChatId (c_id d))"
  by (auto simp: chat_events_def message_notification_def split: option.splits if_splits)

lemma chat_events_by_id:
  "filter (\<lambda>n. n_data n = Some (ChatId i)) (chat_events uid d)
     = (if c_id d = i then chat_events uid d else [])"
  by (auto simp: filter_empty_conv filter_id_conv dest: chat_events_data)

lemma message_events_by_id:
  "filter (\<lambda>n. n_data n = Some (ChatId i)) (messageNotifications uid snapshot)
     = messageNotifications uid (filter (\<lambda>d. c_id d = i) snapshot)"
  by (induction snapshot) (simp_all add: messageNotifications_def chat_events_by_id)

lemma events_of_onChatsSnapshot:
  "events_of Message (ChatId i) (onChatsSnapshot uid snapshot prev)
     = sort_newest_first (messageNotifications uid (filter (\<lambda>d. c_id d = i) snapshot))"
  by (simp add: events_of_kind messages_replaced filter_sort_newest_first message_events_by_id)

lemma chat_events_iff:
  "n \<in> set (chat_events uid d) \<longleftrightarrow>
     (\<exists>m t. c_lastMessage d = Some m \<and> m \<noteq> [] \<and> c_lastMessageTime d = Some t
            \<and> n = message_notification uid d m t)"
  by (cases "c_lastMessage d"; cases "c_lastMessageTime d") (auto simp: chat_events_def)

lemma messageNotifications_silent:
  assumes "\<forall>d\<in>set snapshot. chat_events uid d = []"
  shows "messageNotifications uid snapshot = []"
  using assms by (simp add: messageNotifications_def)

lemma sort_newest_first_Nil: "sort_newest_first [] = []"
  by (simp add: sort_newest_first_def)

lemma set_sort_newest_first: "set (sort_newest_first ns) = set ns"
  by (simp add: sort_newest_first_def)

lemma createOrGetChat_new_doc:
  assumes "createOrGetChat e st a b na nb = (Inr cid, st')"
    and "cid \<notin> c_id ` set (chats st)"
  shows "cid = newId e \<and> chats st' = chats st @ [chatData e a b na nb]"
proof (cases "truthy_str (findExisting b (chats_containing st a))")
  case True
  then obtain i where i: "findExisting b (chats_containing st a) = Some i"
    by (auto simp: truthy_str_def split: option.splits)
  with True assms(1) have "cid = i"
    by (auto simp: createOrGetChat_def split: if_splits)
  with findExisting_in_store [OF i] assms(2) show ?thesis by simp
next
  case False
  with assms(1) show ?thesis
    by (auto simp: createOrGetChat_def split: if_splits)
qed

text \<open>
  C9: the chats listener emits a Message event for a conversation exactly when its
  \<open>lastMessage\<close> is a non-empty string and its \<open>lastMessageTime\<close> is present: the
  Message events of the new feed are those made from such documents of the snapshot.
  A conversation in the snapshot whose \<open>lastMessage\<close> is the empty string has no
  Message event in the feed; in particular a conversation that \<open>createOrGetChat\<close> has
  just created has none, whatever snapshot of the store the listener receives.
\<close>

theorem no_event_without_lastMessage:
  "(n \<in> set (onChatsSnapshot uid snapshot prev) \<and> n_type n = Message \<longleftrightarrow>
      (\<exists>d\<in>set snapshot. \<exists>m t. c_lastMessage d = Some m \<and> m \<noteq> []
          \<and> c_lastMessageTime d = Some t \<and> n = message_notification uid d m t))
   \<and> (distinct (map c_id snapshot) \<longrightarrow> d \<in> set snapshot \<longrightarrow> c_lastMessage d = Some [] \<longrightarrow>
        events_of Message (ChatId (c_id d)) (onChatsSnapshot uid snapshot prev) = [])
   \<and> (createOrGetChat e st a b na nb = (Inr cid, st') \<longrightarrow> cid \<notin> c_id ` set (chats st) \<longrightarrow>
        set snapshot \<subseteq> set (chats st') \<longrightarrow>
        events_of Message (ChatId cid) (onChatsSnapshot uid snapshot prev) = [])"
proof (intro conjI impI)
  have "n \<in> set (onChatsSnapshot uid snapshot prev) \<and> n_type n = Message
          \<longleftrightarrow> n \<in> set (filter (\<lambda>n. n_type n = Message) (onChatsSnapshot uid snapshot prev))"
    by auto
  also have "\<dots> \<longleftrightarrow> n \<in> set (messageNotifications uid snapshot)"
    by (simp only: messages_replaced set_sort_newest_first)
  also have "\<dots> \<longleftrightarrow> (\<exists>d\<in>set snapshot. n \<in> set (chat_events uid d))"
    by (auto simp: messageNotifications_def)
  finally show "n \<in> set (onChatsSnapshot uid snapshot prev) \<and> n_type n = Message \<longleftrightarrow>
      (\<exists>d\<in>set snapshot. \<exists>m t. c_lastMessage d = Some m \<and> m \<noteq> []
          \<and> c_lastMessageTime d = Some t \<and> n = message_notification uid d m t)"
    by (simp only: chat_events_iff)
next
  assume "distinct (map c_id snapshot)" and "d \<in> set snapshot" and empty: "c_lastMessage d = Some []"
  then have "filter (\<lambda>y. c_id y = c_id d) snapshot = [d]"
    by (simp add: distinct_filter_one)
  moreover from empty have "chat_events uid d = []"
    by (simp add: chat_events_def split: option.splits)
  ultimately show "events_of Message (ChatId (c_id d)) (onChatsSnapshot uid snapshot prev) = []"
    by (simp add: events_of_onChatsSnapshot messageNotifications_def sort_newest_first_Nil)
next
  assume call: "createOrGetChat e st a b na nb = (Inr cid, st')"
    and new: "cid \<notin> c_id ` set (chats st)" and sub: "set snapshot \<subseteq> set (chats st')"
  from createOrGetChat_new_doc [OF call new]
  have st': "chats st' = chats st @ [chatData e a b na nb]" by simp
  have "\<forall>x\<in>set (filter (\<lambda>y. c_id y = cid) snapshot). chat_events uid x = []"
  proof
    fix x assume "x \<in> set (filter (\<lambda>y. c_id y = cid) snapshot)"
    then have "x \<in> set (chats st')" and "c_id x = cid" using sub by auto
    with new st' have "x = chatData e a b na nb" by auto
    then show "chat_events uid x = []" by (simp add: chat_events_def chatData_def)
  qed
  then have "messageNotifications uid (filter (\<lambda>y. c_id y = cid) snapshot) = []"
    by (rule messageNotifications_silent)
  then show "events_of Message (ChatId cid) (onChatsSnapshot uid snapshot prev) = []"
    by (simp add: events_of_onChatsSnapshot sort_newest_first_Nil)
qed

theorem no_event_without_lastMessage_witness:
  "fst (createOrGetChat (ex_io ''c1'' 10) ex_store0 ''u1'' ''u2'' ''Ana'' ''Bia'') = Inr ''c1''
   \<and> events_of Message (ChatId ''c1'')
        (onChatsSnapshot ''u2''
           (chats (snd (createOrGetChat (ex_io ''c1'' 10) ex_store0 ''u1'' ''u2'' ''Ana'' ''Bia'')))
           []) = []"
proof -
  have call: "createOrGetChat (ex_io ''c1'' 10) ex_store0 ''u1'' ''u2'' ''Ana'' ''Bia''
     = (Inr ''c1'', ex_store0\<lparr>chats := chats ex_store0 @ [chatData (ex_io ''c1'' 10) ''u1'' ''u2'' ''Ana'' ''Bia'']\<rparr>)"
    by (simp add: createOrGetChat_def ex_io_def ex_store0_def findExisting_def chats_containing_def truthy_str_def)
  have new: "''c1'' \<notin> c_id ` set (chats ex_store0)" by (simp add: ex_store0_def)
  from no_event_without_lastMessage [of _ "''u2''"
      "chats (ex_store0\<lparr>chats := chats ex_store0 @ [chatData (ex_io ''c1'' 10) ''u1'' ''u2'' ''Ana'' ''Bia'']\<rparr>)"
      "[]" _ "ex_io ''c1'' 10" ex_store0 "''u1''" "''u2''" "''Ana''" "''Bia''" "''c1''"
      "ex_store0\<lparr>chats := chats ex_store0 @ [chatData (ex_io ''c1'' 10) ''u1'' ''u2'' ''Ana'' ''Bia'']\<rparr>"]
    call new
  show ?thesis by simp
qed

section \<open>Sending a message\<close>

lemma ex_store1_eq:
  "ex_store1 = \<lparr> chats = [chatData (ex_io ''c1'' 10) ''u1'' ''u2'' ''Ana'' ''Bia''], messages = [] \<rparr>"
  by (simp add: ex_store1_def createOrGetChat_def ex_io_def ex_store0_def findExisting_def
      chats_containing_def truthy_str_def)

lemma sendMessage_cases:
  "sendMessage e st c s n t =
     (if \<not> addOk e then (Inl StoreWriteFailed, st)
      else if \<not> updOk e
        then (Inl StoreWriteFailed, st\<lparr>messages := messages st @ [(c, new_message e s n t)]\<rparr>)
      else if c \<notin> c_id ` set (chats st)
        then (Inl NotFound, st\<lparr>messages := messages st @ [(c, new_message e s n t)]\<rparr>)
      else (Inr (),
            \<lparr> chats = map (\<lambda>d. if c_id d = c
                                then d\<lparr>c_lastMessage := Some t, c_lastMessageTime := Some (now2 e)\<rparr>
                                else d) (chats st),
              messages = messages st @ [(c, new_message e s n t)] \<rparr>))"
  by (simp add: sendMessage_def Let_def)

text \<open>
  C4, as stated, fails: the message and the conversation are written by two separate
  calls. Here the first write succeeds and the second fails: \<open>sendMessage\<close> throws, the
  message is in the history, and the conversation still has the empty \<open>lastMessage\<close> and
  the \<open>lastMessageTime\<close> it was created with.
\<close>

theorem sendMessage_not_atomic_counterexample:
  "history ex_store1 ''c1'' = []
   \<and> fst (sendMessage ((ex_io ''m1'' 20)\<lparr>updOk := False\<rparr>) ex_store1 ''c1'' ''u1'' ''Ana'' ''oi'')
       = Inl StoreWriteFailed
   \<and> map m_text (history (snd (sendMessage ((ex_io ''m1'' 20)\<lparr>updOk := False\<rparr>) ex_store1
                                  ''c1'' ''u1'' ''Ana'' ''oi'')) ''c1'') = [''oi'']
   \<and> map c_lastMessage (chats (snd (sendMessage ((ex_io ''m1'' 20)\<lparr>updOk := False\<rparr>) ex_store1
                                  ''c1'' ''u1'' ''Ana'' ''oi''))) = [Some []]
   \<and> map c_lastMessageTime (chats (snd (sendMessage ((ex_io ''m1'' 20)\<lparr>updOk := False\<rparr>) ex_store1
                                  ''c1'' ''u1'' ''Ana'' ''oi''))) = [Some 10]"
  by (simp add: sendMessage_cases ex_store1_eq ex_io_def history_def new_message_def chatData_def)

text \<open>
  C4, amended: \<open>sendMessage\<close> succeeds exactly when both writes succeed and the
  conversation exists. A failed first write changes nothing. After a successful first
  write the message is appended, whatever happens next. On success the conversation's
  \<open>lastMessage\<close> is the text and its \<open>lastMessageTime\<close> is the second reading of the
  clock (the message carries the first); on every failure the conversations are
  unchanged.
\<close>

theorem sendMessage_two_writes:
  assumes "sendMessage e st c s n t = (r, st')"
  shows "(r = Inr () \<longleftrightarrow> addOk e \<and> updOk e \<and> c \<in> c_id ` set (chats st))
    \<and> (\<not> addOk e \<longrightarrow> st' = st)
    \<and> (addOk e \<longrightarrow> messages st' = messages st @ [(c, new_message e s n t)])
    \<and> (r = Inr () \<longrightarrow>
         chats st' = map (\<lambda>d. if c_id d = c
                              then d\<lparr>c_lastMessage := Some t, c_lastMessageTime := Some (now2 e)\<rparr>
                              else d) (chats st))
    \<and> (r \<noteq> Inr () \<longrightarrow> chats st' = chats st)"
  using assms by (auto simp: sendMessage_cases split: if_splits)

theorem sendMessage_two_writes_witness:
  "fst (sendMessage (ex_io ''m1'' 20) ex_store1 ''c1'' ''u1'' ''Ana'' ''oi'') = Inr ()
   \<and> messages (snd (sendMessage (ex_io ''m1'' 20) ex_store1 ''c1'' ''u1'' ''Ana'' ''oi''))
       = [(''c1'', new_message (ex_io ''m1'' 20) ''u1'' ''Ana'' ''oi'')]
   \<and> map c_lastMessage (chats (snd (sendMessage (ex_io ''m1'' 20) ex_store1 ''c1'' ''u1'' ''Ana'' ''oi'')))
       = [Some ''oi'']
   \<and> map c_lastMessageTime (chats (snd (sendMessage (ex_io ''m1'' 20) ex_store1 ''c1'' ''u1'' ''Ana'' ''oi'')))
       = [Some 21]"
  using sendMessage_two_writes [of "ex_io ''m1'' 20" ex_store1 "''c1''" "''u1''" "''Ana''" "''oi''"
      "fst (sendMessage (ex_io ''m1'' 20) ex_store1 ''c1'' ''u1'' ''Ana'' ''oi'')"
      "snd (sendMessage (ex_io ''m1'' 20) ex_store1 ''c1'' ''u1'' ''Ana'' ''oi'')"]
  by (simp add: ex_store1_eq ex_io_def chatData_def)

section \<open>The message subscription\<close>

lemma ex_store_ab_messages:
  "messages ex_store_ab =
     [(''c1'', new_message (ex_io ''m2'' 1000) ''u1'' ''Ana'' ''a''),
      (''c1'', new_message (ex_io ''m1'' 1000) ''u2'' ''Bia'' ''b'')]"
  by (simp add: ex_store_ab_def sendMessage_cases ex_store1_eq ex_io_def chatData_def)

lemma message_key_to_chat_message:
  "map (\<lambda>m. (cm_timestamp m, cm_id m)) (map (to_chat_message c) ms)
     = map (\<lambda>m. (m_timestamp m, m_id m)) ms"
  by (simp add: to_chat_message_def)

lemma sorted_fst:
  fixes k :: "'a \<Rightarrow> int \<times> string"
  assumes "sorted (map k xs)"
  shows "sorted (map (\<lambda>x. fst (k x)) xs)"
  using assms
  by (induction xs) (auto simp: less_eq_prod_def)

lemma sorted_before:
  fixes k :: "'a \<Rightarrow> 'b::linorder"
  assumes srt: "sorted (map k xs)" and a: "a \<in> set xs" and b: "b \<in> set xs" and lt: "k a < k b"
  shows "\<exists>pre mid post. xs = pre @ [a] @ mid @ [b] @ post"
proof -
  from b obtain pre rest where xs: "xs = pre @ b # rest"
    by (auto dest: split_list)
  from lt have "a \<noteq> b" by auto
  have "a \<notin> set rest"
  proof
    assume "a \<in> set rest"
    with srt xs have "k b \<le> k a" by (simp add: sorted_append)
    with lt show False by simp
  qed
  with a xs \<open>a \<noteq> b\<close> have "a \<in> set pre" by auto
  then obtain p1 p2 where "pre = p1 @ a # p2" by (auto dest: split_list)
  with xs have "xs = p1 @ [a] @ p2 @ [b] @ rest" by simp
  then show ?thesis by blast
qed

lemma history_after_send:
  assumes "sendMessage e st c s n t = (Inr (), st')"
  shows "history st' c = history st c @ [new_message e s n t]"
  using assms by (auto simp: sendMessage_cases history_def split: if_splits)

text \<open>
  C5, as stated, fails: the timestamps are readings of the senders' clocks, and messages
  of equal timestamp are delivered in the order of their document ids, which
  \<open>addDoc\<close> generates. Here "a" is sent, then "b", both calls succeed and both read
  the clock at 1000; "b" got the smaller id and is delivered first, where insertion
  order would deliver "a" first.
\<close>

theorem messages_in_insertion_order_counterexample:
  "fst (sendMessage (ex_io ''m2'' 1000) ex_store1 ''c1'' ''u1'' ''Ana'' ''a'') = Inr ()
   \<and> fst (sendMessage (ex_io ''m1'' 1000)
            (snd (sendMessage (ex_io ''m2'' 1000) ex_store1 ''c1'' ''u1'' ''Ana'' ''a''))
            ''c1'' ''u2'' ''Bia'' ''b'') = Inr ()
   \<and> map cm_text (getChatMessages ex_store_ab ''c1'') = [''b'', ''a'']
   \<and> map cm_timestamp (getChatMessages ex_store_ab ''c1'') = [1000, 1000]
   \<and> map cm_text (spec_ordered_history ex_store_ab ''c1'') = [''a'', ''b'']"
proof -
  have "map cm_text (getChatMessages ex_store_ab ''c1'') = [''b'', ''a'']"
    by (simp add: getChatMessages_def messages_by_timestamp_def history_def ex_store_ab_messages
        new_message_def ex_io_def to_chat_message_def less_eq_prod_def)
  moreover have "map cm_timestamp (getChatMessages ex_store_ab ''c1'') = [1000, 1000]"
    by (simp add: getChatMessages_def messages_by_timestamp_def history_def ex_store_ab_messages
        new_message_def ex_io_def to_chat_message_def less_eq_prod_def)
  moreover have "map cm_text (spec_ordered_history ex_store_ab ''c1'') = [''a'', ''b'']"
    by (simp add: spec_ordered_history_def history_def ex_store_ab_messages
        new_message_def ex_io_def to_chat_message_def)
  moreover have "fst (sendMessage (ex_io ''m2'' 1000) ex_store1 ''c1'' ''u1'' ''Ana'' ''a'') = Inr ()"
    by (simp add: sendMessage_cases ex_store1_eq ex_io_def chatData_def)
  moreover have "fst (sendMessage (ex_io ''m1'' 1000)
            (snd (sendMessage (ex_io ''m2'' 1000) ex_store1 ''c1'' ''u1'' ''Ana'' ''a''))
            ''c1'' ''u2'' ''Bia'' ''b'') = Inr ()"
    by (simp add: sendMessage_cases ex_store1_eq ex_io_def chatData_def)
  ultimately show ?thesis by simp
qed

text \<open>
  C5, amended: in every state of the store the delivered list is the full history of
  the conversation (the same messages, each as often), ascending by timestamp with
  messages of equal timestamp in the order of their document ids, so the timestamps
  are non-decreasing. After a successful \<open>sendMessage\<close> of "a" and then of "b" on the
  same conversation, "a" is delivered before "b" when the clock reading written for
  "a" is smaller than the one written for "b".
\<close>

theorem getChatMessages_ordered:
  "mset (getChatMessages st c) = mset (map (to_chat_message c) (history st c))
   \<and> sorted (map (\<lambda>m. (cm_timestamp m, cm_id m)) (getChatMessages st c))
   \<and> sorted (map cm_timestamp (getChatMessages st c))
   \<and> (sendMessage ea st c sa na ta = (Inr (), sta) \<longrightarrow>
      sendMessage eb sta c sb nb tb = (Inr (), stb) \<longrightarrow>
      now1 ea < now1 eb \<longrightarrow>
      (\<exists>pre mid post. getChatMessages stb c =
          pre @ [to_chat_message c (new_message ea sa na ta)] @ mid
              @ [to_chat_message c (new_message eb sb nb tb)] @ post))"
proof (intro conjI impI)
  show "mset (getChatMessages st c) = mset (map (to_chat_message c) (history st c))"
    by (simp add: getChatMessages_def messages_by_timestamp_def)
next
  show key: "sorted (map (\<lambda>m. (cm_timestamp m, cm_id m)) (getChatMessages st c))"
    by (simp only: getChatMessages_def message_key_to_chat_message messages_by_timestamp_def
        sorted_sort_key)
  from sorted_fst [OF key]
  show "sorted (map cm_timestamp (getChatMessages st c))" by simp
next
  assume a: "sendMessage ea st c sa na ta = (Inr (), sta)"
    and b: "sendMessage eb sta c sb nb tb = (Inr (), stb)"
    and lt: "now1 ea < now1 eb"
  let ?a = "new_message ea sa na ta" and ?b = "new_message eb sb nb tb"
  let ?k = "\<lambda>m. (m_timestamp m, m_id m)"
  from history_after_send [OF a] history_after_send [OF b]
  have h: "history stb c = history st c @ [?a, ?b]" by simp
  have srt: "sorted (map ?k (messages_by_timestamp stb c))"
    by (simp only: messages_by_timestamp_def sorted_sort_key)
  have mem: "?a \<in> set (messages_by_timestamp stb c)" "?b \<in> set (messages_by_timestamp stb c)"
    by (simp_all add: messages_by_timestamp_def h)
  from lt have "?k ?a < ?k ?b"
    by (simp add: new_message_def less_prod_def)
  from sorted_before [OF srt mem this]
  obtain pre mid post where "messages_by_timestamp stb c = pre @ [?a] @ mid @ [?b] @ post"
    by blast
  then have "getChatMessages stb c =
      map (to_chat_message c) pre @ [to_chat_message c ?a] @ map (to_chat_message c) mid
        @ [to_chat_message c ?b] @ map (to_chat_message c) post"
    by (simp add: getChatMessages_def)
  then show "\<exists>pre mid post. getChatMessages stb c =
          pre @ [to_chat_message c ?a] @ mid @ [to_chat_message c ?b] @ post"
    by blast
qed

theorem getChatMessages_ordered_witness:
  "map cm_text (getChatMessages ex_store_ab_later ''c1'') = [''a'', ''b'']
   \<and> map cm_timestamp (getChatMessages ex_store_ab_later ''c1'') = [1000, 2000]
   \<and> (\<exists>pre mid post. getChatMessages ex_store_ab_later ''c1'' =
          pre @ [to_chat_message ''c1'' (new_message (ex_io ''m2'' 1000) ''u1'' ''Ana'' ''a'')] @ mid
              @ [to_chat_message ''c1'' (new_message (ex_io ''m1'' 2000) ''u2'' ''Bia'' ''b'')] @ post)"
proof -
  let ?sta = "snd (sendMessage (ex_io ''m2'' 1000) ex_store1 ''c1'' ''u1'' ''Ana'' ''a'')"
  have a: "sendMessage (ex_io ''m2'' 1000) ex_store1 ''c1'' ''u1'' ''Ana'' ''a'' = (Inr (), ?sta)"
    by (simp add: sendMessage_cases ex_store1_eq ex_io_def chatData_def)
  have b: "sendMessage (ex_io ''m1'' 2000) ?sta ''c1'' ''u2'' ''Bia'' ''b'' = (Inr (), ex_store_ab_later)"
    by (simp add: ex_store_ab_later_def sendMessage_cases ex_store1_eq ex_io_def chatData_def)
  have lt: "now1 (ex_io ''m2'' 1000) < now1 (ex_io ''m1'' 2000)"
    by (simp add: ex_io_def)
  have msgs: "messages ex_store_ab_later =
     [(''c1'', new_message (ex_io ''m2'' 1000) ''u1'' ''Ana'' ''a''),
      (''c1'', new_message (ex_io ''m1'' 2000) ''u2'' ''Bia'' ''b'')]"
    by (simp add: ex_store_ab_later_def sendMessage_cases ex_store1_eq ex_io_def chatData_def)
  have "map cm_text (getChatMessages ex_store_ab_later ''c1'') = [''a'', ''b'']"
    by (simp add: getChatMessages_def messages_by_timestamp_def history_def msgs
        new_message_def ex_io_def to_chat_message_def less_eq_prod_def)
  moreover have "map cm_timestamp (getChatMessages ex_store_ab_later ''c1'') = [1000, 2000]"
    by (simp add: getChatMessages_def messages_by_timestamp_def history_def msgs
        new_message_def ex_io_def to_chat_message_def less_eq_prod_def)
  moreover from getChatMessages_ordered [of ex_store1 "''c1''" "ex_io ''m2'' 1000" "''u1''" "''Ana''" "''a''"
      ?sta "ex_io ''m1'' 2000" "''u2''" "''Bia''" "''b''" ex_store_ab_later] a b lt
  have "\<exists>pre mid post. getChatMessages ex_store_ab_later ''c1'' =
          pre @ [to_chat_message ''c1'' (new_message (ex_io ''m2'' 1000) ''u1'' ''Ana'' ''a'')] @ mid
              @ [to_chat_message ''c1'' (new_message (ex_io ''m1'' 2000) ''u2'' ''Bia'' ''b'')] @ post"
    by blast
  ultimately show ?thesis by blast
qed

section \<open>Filters of the home list\<close>

lemma startsWith_iff: "startsWith hay needle \<longleftrightarrow> (\<exists>post. hay = needle @ post)"
  by (induction hay needle rule: startsWith.induct) auto

lemma includes_str_iff: "includes_str hay needle \<longleftrightarrow> (\<exists>pre post. hay = pre @ needle @ post)"
proof (induction hay)
  case Nil
  show ?case by auto
next
  case (Cons h hs)
  show ?case
  proof
    assume "includes_str (h # hs) needle"
    then consider "startsWith (h # hs) needle" | "includes_str hs needle" by auto
    then show "\<exists>pre post. h # hs = pre @ needle @ post"
    proof cases
      case 1
      then obtain post where "h # hs = needle @ post" by (auto simp: startsWith_iff)
      then have "h # hs = [] @ needle @ post" by simp
      then show ?thesis by blast
    next
      case 2
      with Cons.IH obtain pre post where "hs = pre @ needle @ post" by blast
      then have "h # hs = (h # pre) @ needle @ post" by simp
      then show ?thesis by blast
    qed
  next
    assume "\<exists>pre post. h # hs = pre @ needle @ post"
    then obtain pre post where eq: "h # hs = pre @ needle @ post" by blast
    show "includes_str (h # hs) needle"
    proof (cases pre)
      case Nil
      with eq have "startsWith (h # hs) needle" by (auto simp: startsWith_iff)
      then show ?thesis by simp
    next
      case (Cons x pre')
      with eq have "hs = pre' @ needle @ post" by simp
      with Cons.IH have "includes_str hs needle" by blast
      then show ?thesis by simp
    qed
  qed
qed

lemma includes_lower_iff:
  "includes_str (toLowerCase hay) (toLowerCase needle) \<longleftrightarrow> ci_substring toLowerCase needle hay"
  by (simp add: includes_str_iff ci_substring_def)

text \<open>
  For a lower-casing that works character by character, the match is a stretch of the
  hay that equals the needle up to the case of its letters.
\<close>

lemma ci_substring_charwise:
  "ci_substring (map f) needle hay \<longleftrightarrow>
     (\<exists>pre mid post. hay = pre @ mid @ post \<and> map f mid = map f needle)"
proof
  assume "ci_substring (map f) needle hay"
  then obtain pre post where "map f hay = pre @ map f needle @ post"
    by (auto simp: ci_substring_def)
  then obtain a b where hay: "hay = a @ b" and "map f b = map f needle @ post"
    by (metis map_eq_append_conv)
  then obtain m c where "b = m @ c" and "map f m = map f needle"
    by (metis map_eq_append_conv)
  with hay show "\<exists>pre mid post. hay = pre @ mid @ post \<and> map f mid = map f needle"
    by blast
next
  assume "\<exists>pre mid post. hay = pre @ mid @ post \<and> map f mid = map f needle"
  then obtain pre mid post where "hay = pre @ mid @ post" and "map f mid = map f needle"
    by blast
  then have "map f hay = map f pre @ map f needle @ map f post" by simp
  then show "ci_substring (map f) needle hay"
    unfolding ci_substring_def by blast
qed

lemma if_filter: "(if c then filter P xs else xs) = filter (\<lambda>x. \<not> c \<or> P x) xs"
  by simp

lemma filterProviders_filtered:
  "hs_filteredProviders (filterProviders toLowerCase st) =
     filter (\<lambda>p. (hs_userLocation st = None \<or> num_or (p_distance p) 0 \<le> hs_searchRadius st))
      (filter (\<lambda>p. hs_searchText st = []
                    \<or> includes_str (toLowerCase (p_displayName p)) (toLowerCase (hs_searchText st))
                    \<or> includes_str (toLowerCase (p_serviceType p)) (toLowerCase (hs_searchText st)))
        (filter (\<lambda>p. hs_selectedNeighborhood st = [] \<or> p_neighborhood p = hs_selectedNeighborhood st)
          (filter (\<lambda>p. hs_selectedService st = []
                        \<or> includes_str (toLowerCase (p_serviceType p)) (toLowerCase (hs_selectedService st)))
            (hs_providers st))))"
  unfolding filterProviders_def Let_def if_filter not_not by simp

lemma filterProviders_conj:
  "hs_filteredProviders (filterProviders toLowerCase st) =
     filter (\<lambda>p. service_ok toLowerCase st p \<and> neighborhood_ok st p
                  \<and> freeText_ok toLowerCase st p \<and> radius_ok st p)
       (hs_providers st)"
proof -
  have "filter (\<lambda>p. service_ok toLowerCase st p \<and> neighborhood_ok st p
                  \<and> freeText_ok toLowerCase st p \<and> radius_ok st p) (hs_providers st) =
        filter (radius_ok st) (filter (freeText_ok toLowerCase st) (filter (neighborhood_ok st)
          (filter (service_ok toLowerCase st) (hs_providers st))))"
    by (simp add: conj_commute conj_left_commute)
  also have "\<dots> = hs_filteredProviders (filterProviders toLowerCase st)"
    unfolding filterProviders_filtered service_ok_def neighborhood_ok_def freeText_ok_def radius_ok_def
    by (simp only: includes_lower_iff)
  finally show ?thesis by simp
qed

lemma filtered_iff:
  "p \<in> set (hs_filteredProviders (filterProviders toLowerCase st)) \<longleftrightarrow>
     p \<in> set (hs_providers st) \<and> service_ok toLowerCase st p \<and> neighborhood_ok st p
       \<and> freeText_ok toLowerCase st p \<and> radius_ok st p"
  by (simp add: filterProviders_conj)




section \<open>Distances and the radius\<close>

lemma calculateDistance_same: "calculateDistance la lo la lo = 0"
  by (simp add: calculateDistance_def)

lemma num_or_Some_0: "num_or (Some x) 0 = x"
  by (simp add: num_or_def)

lemma num_or_falsy: "\<not> truthy_num v \<Longrightarrow> num_or v d = d"
  by (auto simp: truthy_num_def num_or_def split: option.splits)

lemma set_sort_by_distance: "set (sort_by_distance ps) = set ps"
  by (simp add: sort_by_distance_def)

lemma loadProviders_fields:
  "hs_userLocation (loadProviders distKm loc ok snap st) = hs_userLocation st"
  "hs_searchRadius (loadProviders distKm loc ok snap st) = hs_searchRadius st"
  "hs_selectedService (loadProviders distKm loc ok snap st) = hs_selectedService st"
  "hs_selectedNeighborhood (loadProviders distKm loc ok snap st) = hs_selectedNeighborhood st"
  "hs_searchText (loadProviders distKm loc ok snap st) = hs_searchText st"
  by (simp_all add: loadProviders_def)

lemma loadProviders_set:
  "set (hs_providers (loadProviders distKm loc True snap st)) =
     (\<Union>d\<in>set snap. set (home_provider distKm loc d))"
  by (simp add: loadProviders_def set_sort_by_distance)

lemma with_distance_known:
  "p_distance (with_distance distKm (Some l) p) =
     Some (distKm (l_latitude l) (l_longitude l) (p_latitude p) (p_longitude p))"
  "p_latitude (with_distance distKm loc p) = p_latitude p"
  "p_longitude (with_distance distKm loc p) = p_longitude p"
  by (simp_all add: with_distance_def split: option.splits)

lemma ex_home_mounted_state:
  "hs_providers ex_home_mounted =
     [make_provider (ex_doc ''p2'' (Some (- 23.5505)) (Some (- 46.6333))) (- 23.5505) (- 46.6333)]"
  "hs_userLocation ex_home_mounted = Some ex_origin"
  "hs_searchRadius ex_home_mounted = 5"
  "hs_selectedService ex_home_mounted = []"
  "hs_selectedNeighborhood ex_home_mounted = []"
  "hs_searchText ex_home_mounted = []"
  by (simp_all add: ex_home_mounted_def mount_loadProviders_def loadProviders_def
      setUserLocation_def home_provider_def with_distance_def sort_by_distance_def ex_home_def
      ex_doc_def truthy_str_def num_or_def)

text \<open>
  C3 does not hold of the home list, against the code's own comment on the radius
  filter ("Only show providers within 5km radius") and against the map screen, which
  loads only once the location is known. On mount \<open>loadProviders\<close> runs with the
  location still null, so it computes no distance. Here the location has resolved by
  the time the list arrives, and the list is filtered with the origin known and radius
  5: the provider stored at (-23.5505, -46.6333) is returned, and it has no computed
  distance.
\<close>

theorem home_list_returns_provider_without_distance:
  "hs_userLocation ex_home_mounted = Some ex_origin
   \<and> hs_searchRadius ex_home_mounted = 5
   \<and> map p_uid (hs_filteredProviders (filterProviders toLowerCase ex_home_mounted)) = [''p2'']
   \<and> map p_latitude (hs_filteredProviders (filterProviders toLowerCase ex_home_mounted))
       = [- 23.5505]
   \<and> map p_longitude (hs_filteredProviders (filterProviders toLowerCase ex_home_mounted))
       = [- 46.6333]
   \<and> map p_distance (hs_filteredProviders (filterProviders toLowerCase ex_home_mounted))
       = [None]"
  by (simp add: filterProviders_filtered ex_home_mounted_state make_provider_def ex_doc_def
      num_or_def)

section \<open>Providers without a stored coordinate\<close>

lemma ex_home_refreshed_state:
  "hs_providers ex_home_refreshed =
     [(make_provider (ex_doc ''p1'' None None) (- 22.9068) (- 43.1729))\<lparr>p_distance := Some 0\<rparr>]"
  "hs_userLocation ex_home_refreshed = Some ex_origin"
  "hs_searchRadius ex_home_refreshed = 5"
  "hs_selectedService ex_home_refreshed = []"
  "hs_selectedNeighborhood ex_home_refreshed = []"
  "hs_searchText ex_home_refreshed = []"
  by (simp_all add: ex_home_refreshed_def onRefresh_def loadProviders_def setUserLocation_def
      home_provider_def with_distance_def sort_by_distance_def ex_home_def ex_doc_def
      ex_origin_def calculateDistance_same truthy_str_def num_or_def make_provider_def)

text \<open>
  C6, as stated, fails on the home list: a record with no stored coordinate is placed at
  the default coordinate and measured from there. Here the origin is known, before and
  after the refresh that loads the list, and is the default coordinate itself; the
  record with no coordinate is returned, at distance 0, with radius 5.
\<close>

theorem missing_coordinate_excluded_counterexample:
  "u_latitude (ex_doc ''p1'' None None) = None
   \<and> u_longitude (ex_doc ''p1'' None None) = None
   \<and> hs_userLocation ex_home_refreshed = Some ex_origin
   \<and> hs_searchRadius ex_home_refreshed = 5
   \<and> map p_uid (hs_filteredProviders (filterProviders ascii_toLowerCase ex_home_refreshed)) = [''p1'']
   \<and> map p_latitude (hs_filteredProviders (filterProviders ascii_toLowerCase ex_home_refreshed))
       = [- 22.9068]
   \<and> map p_longitude (hs_filteredProviders (filterProviders ascii_toLowerCase ex_home_refreshed))
       = [- 43.1729]
   \<and> map p_distance (hs_filteredProviders (filterProviders ascii_toLowerCase ex_home_refreshed))
       = [Some 0]"
  by (simp add: filterProviders_filtered ex_home_refreshed_state num_or_def
      make_provider_def ex_doc_def)

lemma map_provider_no_coordinate:
  assumes "\<not> truthy_num (u_latitude d) \<or> \<not> truthy_num (u_longitude d)"
  shows "map_provider distKm loc r d = []"
  using assms by (auto simp: map_provider_def)

lemma concat_map_filter_nonempty:
  assumes "\<And>x. \<not> P x \<Longrightarrow> f x = []"
  shows "concat (map f (filter P xs)) = concat (map f xs)"
  using assms by (induction xs) simp_all

lemma home_provider_no_coordinate:
  assumes "truthy_str (u_displayName d)" "truthy_str (u_serviceType d)" "truthy_str (u_neighborhood d)"
    and "\<not> truthy_num (u_latitude d)" "\<not> truthy_num (u_longitude d)"
  shows "home_provider distKm loc d = [default_placed distKm loc d]"
  using assms by (simp add: home_provider_def num_or_falsy default_placed_def)

lemma default_placed_distance:
  "p_distance (default_placed distKm (Some l) d)
     = Some (distKm (l_latitude l) (l_longitude l) (- 22.9068) (- 43.1729))"
  "p_latitude (default_placed distKm loc d) = - 22.9068"
  "p_longitude (default_placed distKm loc d) = - 43.1729"
  by (simp_all add: default_placed_def with_distance_known make_provider_def)

lemma filters_after_load:
  "service_ok toLowerCase (loadProviders distKm loc ok snap st) p = service_ok toLowerCase st p"
  "neighborhood_ok (loadProviders distKm loc ok snap st) p = neighborhood_ok st p"
  "freeText_ok toLowerCase (loadProviders distKm loc ok snap st) p = freeText_ok toLowerCase st p"
  "radius_ok (loadProviders distKm loc ok snap st) p = radius_ok st p"
  by (simp_all add: service_ok_def neighborhood_ok_def freeText_ok_def radius_ok_def
      loadProviders_fields)

text \<open>
  C6, amended: on the map screen a record with no stored latitude or longitude yields no
  provider, so the loaded list is the one the records with both coordinates give,
  whether or not the origin is known. On the home list such a record (with its
  required names present) yields one provider placed at the default coordinate
  (-22.9068, -43.1729); loaded with a known origin, its distance is the one from the
  origin to the default coordinate, and it is in the filtered result exactly when it
  passes the service, neighbourhood and free-text filters and, if the origin is known
  when the list is filtered, that distance is within the radius.
\<close>

theorem missing_coordinate:
  "(\<not> truthy_num (u_latitude d) \<or> \<not> truthy_num (u_longitude d) \<longrightarrow>
      map_provider distKm loc r d = [])
   \<and> ms_providers (loadProviders_map distKm loc r True snap mst) =
       ms_providers (loadProviders_map distKm loc r True
         (filter (\<lambda>d. truthy_num (u_latitude d) \<and> truthy_num (u_longitude d)) snap) mst)
   \<and> (truthy_str (u_displayName d) \<longrightarrow> truthy_str (u_serviceType d) \<longrightarrow>
      truthy_str (u_neighborhood d) \<longrightarrow>
      \<not> truthy_num (u_latitude d) \<longrightarrow> \<not> truthy_num (u_longitude d) \<longrightarrow>
        home_provider distKm loc d = [default_placed distKm loc d]
        \<and> p_latitude (default_placed distKm loc d) = - 22.9068
        \<and> p_longitude (default_placed distKm loc d) = - 43.1729
        \<and> p_distance (default_placed distKm (Some l) d)
            = Some (distKm (l_latitude l) (l_longitude l) (- 22.9068) (- 43.1729))
        \<and> (d \<in> set snap \<longrightarrow>
           (default_placed distKm (Some l) d
              \<in> set (hs_filteredProviders
                       (filterProviders toLowerCase (loadProviders distKm (Some l) True snap st)))
            \<longleftrightarrow> service_ok toLowerCase st (default_placed distKm (Some l) d)
                \<and> neighborhood_ok st (default_placed distKm (Some l) d)
                \<and> freeText_ok toLowerCase st (default_placed distKm (Some l) d)
                \<and> (hs_userLocation st = None
                    \<or> distKm (l_latitude l) (l_longitude l) (- 22.9068) (- 43.1729)
                        \<le> hs_searchRadius st))))"
proof -
  have on_map: "\<not> truthy_num (u_latitude d) \<or> \<not> truthy_num (u_longitude d) \<longrightarrow>
      map_provider distKm loc r d = []"
    by (simp add: map_provider_no_coordinate)
  have map_list: "ms_providers (loadProviders_map distKm loc r True snap mst) =
       ms_providers (loadProviders_map distKm loc r True
         (filter (\<lambda>d. truthy_num (u_latitude d) \<and> truthy_num (u_longitude d)) snap) mst)"
  proof -
    have "concat (map (map_provider distKm loc r)
            (filter (\<lambda>d. truthy_num (u_latitude d) \<and> truthy_num (u_longitude d)) snap))
          = concat (map (map_provider distKm loc r) snap)"
      by (rule concat_map_filter_nonempty) (simp add: map_provider_no_coordinate)
    then show ?thesis by (simp add: loadProviders_map_def)
  qed
  have home: "truthy_str (u_displayName d) \<longrightarrow> truthy_str (u_serviceType d) \<longrightarrow>
      truthy_str (u_neighborhood d) \<longrightarrow>
      \<not> truthy_num (u_latitude d) \<longrightarrow> \<not> truthy_num (u_longitude d) \<longrightarrow>
        home_provider distKm loc d = [default_placed distKm loc d]
        \<and> p_latitude (default_placed distKm loc d) = - 22.9068
        \<and> p_longitude (default_placed distKm loc d) = - 43.1729
        \<and> p_distance (default_placed distKm (Some l) d)
            = Some (distKm (l_latitude l) (l_longitude l) (- 22.9068) (- 43.1729))
        \<and> (d \<in> set snap \<longrightarrow>
           (default_placed distKm (Some l) d
              \<in> set (hs_filteredProviders
                       (filterProviders toLowerCase (loadProviders distKm (Some l) True snap st)))
            \<longleftrightarrow> service_ok toLowerCase st (default_placed distKm (Some l) d)
                \<and> neighborhood_ok st (default_placed distKm (Some l) d)
                \<and> freeText_ok toLowerCase st (default_placed distKm (Some l) d)
                \<and> (hs_userLocation st = None
                    \<or> distKm (l_latitude l) (l_longitude l) (- 22.9068) (- 43.1729)
                        \<le> hs_searchRadius st)))"
  proof (intro impI)
    assume names: "truthy_str (u_displayName d)" "truthy_str (u_serviceType d)"
        "truthy_str (u_neighborhood d)"
      and coords: "\<not> truthy_num (u_latitude d)" "\<not> truthy_num (u_longitude d)"
    let ?p = "default_placed distKm (Some l) d"
    have made: "home_provider distKm loc' d = [default_placed distKm loc' d]" for loc'
      using names coords by (rule home_provider_no_coordinate)
    have radius: "radius_ok st ?p \<longleftrightarrow>
        (hs_userLocation st = None
         \<or> distKm (l_latitude l) (l_longitude l) (- 22.9068) (- 43.1729) \<le> hs_searchRadius st)"
      by (simp add: radius_ok_def default_placed_distance num_or_Some_0)
    have member: "?p \<in> set (hs_filteredProviders
                       (filterProviders toLowerCase (loadProviders distKm (Some l) True snap st)))
            \<longleftrightarrow> service_ok toLowerCase st ?p \<and> neighborhood_ok st ?p
                \<and> freeText_ok toLowerCase st ?p
                \<and> (hs_userLocation st = None
                    \<or> distKm (l_latitude l) (l_longitude l) (- 22.9068) (- 43.1729)
                        \<le> hs_searchRadius st)"
      if d: "d \<in> set snap"
    proof -
      from d made [of "Some l"]
      have "?p \<in> set (hs_providers (loadProviders distKm (Some l) True snap st))"
        by (force simp: loadProviders_set)
      then show ?thesis
        by (simp add: filtered_iff filters_after_load radius)
    qed
    from made [of loc] member
    show "home_provider distKm loc d = [default_placed distKm loc d]
        \<and> p_latitude (default_placed distKm loc d) = - 22.9068
        \<and> p_longitude (default_placed distKm loc d) = - 43.1729
        \<and> p_distance ?p = Some (distKm (l_latitude l) (l_longitude l) (- 22.9068) (- 43.1729))
        \<and> (d \<in> set snap \<longrightarrow>
           (?p \<in> set (hs_filteredProviders
                       (filterProviders toLowerCase (loadProviders distKm (Some l) True snap st)))
            \<longleftrightarrow> service_ok toLowerCase st ?p \<and> neighborhood_ok st ?p
                \<and> freeText_ok toLowerCase st ?p
                \<and> (hs_userLocation st = None
                    \<or> distKm (l_latitude l) (l_longitude l) (- 22.9068) (- 43.1729)
                        \<le> hs_searchRadius st)))"
      by (simp add: default_placed_distance)
  qed
  show ?thesis
    by (rule conjI [OF on_map conjI [OF map_list home]])
qed

theorem missing_coordinate_witness:
  "map_provider calculateDistance (Some ex_origin) 5 (ex_doc ''p1'' None None) = []
   \<and> ms_providers (loadProviders_map calculateDistance (Some ex_origin) 5 True
        [ex_doc ''p1'' None None] ex_map) = []
   \<and> home_provider calculateDistance (Some ex_origin) (ex_doc ''p1'' None None) =
       [default_placed calculateDistance (Some ex_origin) (ex_doc ''p1'' None None)]
   \<and> p_distance (default_placed calculateDistance (Some ex_origin) (ex_doc ''p1'' None None)) = Some 0
   \<and> hs_selectedService ex_home_service = ''enc''
   \<and> default_placed calculateDistance (Some ex_origin) (ex_doc ''p1'' None None)
       \<in> set (hs_filteredProviders (filterProviders ascii_toLowerCase
                 (loadProviders calculateDistance (Some ex_origin) True [ex_doc ''p1'' None None]
                    ex_home_service)))"
proof -
  let ?d = "ex_doc ''p1'' None None"
  let ?p = "default_placed calculateDistance (Some ex_origin) ?d"
  have names: "truthy_str (u_displayName ?d)" "truthy_str (u_serviceType ?d)"
      "truthy_str (u_neighborhood ?d)"
    by (simp_all add: ex_doc_def truthy_str_def)
  have coords: "\<not> truthy_num (u_latitude ?d)" "\<not> truthy_num (u_longitude ?d)"
    by (simp_all add: ex_doc_def truthy_num_def)
  have st: "hs_selectedService ex_home_service = ''enc''" "hs_selectedNeighborhood ex_home_service = []"
      "hs_searchText ex_home_service = []" "hs_searchRadius ex_home_service = 5"
    by (simp_all add: ex_home_service_def setUserLocation_def ex_home_def)
  have "includes_str (ascii_toLowerCase ''Encanador'') (ascii_toLowerCase ''enc'')"
    by code_simp
  then have service: "service_ok ascii_toLowerCase ex_home_service ?p"
    by (simp add: service_ok_def st includes_lower_iff [symmetric] default_placed_def
        with_distance_def make_provider_def ex_doc_def str_val_def)
  have others: "neighborhood_ok ex_home_service ?p" "freeText_ok ascii_toLowerCase ex_home_service ?p"
    by (simp_all add: neighborhood_ok_def freeText_ok_def st)
  have near: "calculateDistance (l_latitude ex_origin) (l_longitude ex_origin) (- 22.9068) (- 43.1729) = 0"
    by (simp add: ex_origin_def calculateDistance_same)
  from missing_coordinate [where d = ?d and distKm = calculateDistance and loc = "Some ex_origin"
      and r = 5 and snap = "[?d]" and mst = ex_map and st = ex_home_service and l = ex_origin
      and toLowerCase = ascii_toLowerCase]
    names coords service others near st
  show ?thesis by (simp add: loadProviders_map_def sort_by_distance_def)
qed

end
